theory Spec2Isabelle
  imports Complex_Main
begin

section \<open>Numbers and vectors\<close>

text \<open>
  JavaScript numbers are modelled as the real numbers: rounding, NaN and the infinities
  of IEEE doubles are outside the model.  A \<open>THREE.Vector3\<close> is a record of three reals;
  the operations below are the ones of three.js that the sources call.
\<close>

record vec3 =
  vx :: real
  vy :: real
  vz :: real

definition Vector3 :: "real \<Rightarrow> real \<Rightarrow> real \<Rightarrow> vec3" where
  "Vector3 a b c = \<lparr>vx = a, vy = b, vz = c\<rparr>"

definition subVectors :: "vec3 \<Rightarrow> vec3 \<Rightarrow> vec3" where
  "subVectors a b = \<lparr>vx = vx a - vx b, vy = vy a - vy b, vz = vz a - vz b\<rparr>"

definition vlength :: "vec3 \<Rightarrow> real" where
  "vlength v = sqrt (vx v * vx v + vy v * vy v + vz v * vz v)"

definition distanceTo :: "vec3 \<Rightarrow> vec3 \<Rightarrow> real" where
  "distanceTo a b = vlength (subVectors a b)"

definition addScaledVector :: "vec3 \<Rightarrow> vec3 \<Rightarrow> real \<Rightarrow> vec3" where
  "addScaledVector p v s = \<lparr>vx = vx p + vx v * s, vy = vy p + vy v * s, vz = vz p + vz v * s\<rparr>"

definition multiplyScalar :: "vec3 \<Rightarrow> real \<Rightarrow> vec3" where
  "multiplyScalar v s = \<lparr>vx = vx v * s, vy = vy v * s, vz = vz v * s\<rparr>"

text \<open>\<open>normalize()\<close> is \<open>divideScalar(length() || 1)\<close>: the zero vector stays zero.\<close>

definition normalize :: "vec3 \<Rightarrow> vec3" where
  "normalize v = multiplyScalar v (1 / (if vlength v = 0 then 1 else vlength v))"

text \<open>\<open>THREE.MathUtils.degToRad\<close>: degrees times \<open>Math.PI / 180\<close>.\<close>

definition degToRad :: "real \<Rightarrow> real" where
  "degToRad d = d * (pi / 180)"

section \<open>Manipulable objects (objectManager.js)\<close>

text \<open>
  The geometry of a mesh keeps the constructor parameters that \<open>checkClamping\<close> reads:
  a box has \<open>parameters.width\<close>, a sphere has \<open>parameters.radius\<close>, a cylinder has
  neither (its parameters are \<open>radiusTop\<close>, \<open>radiusBottom\<close>, \<open>height\<close>).
\<close>

datatype geometry =
    BoxGeometry real real real
  | SphereGeometry real
  | CylinderGeometry real real real

text \<open>
  \<open>mesh.userData\<close> as \<open>spawnObject\<close> builds it (\<open>spawned: Date.now()\<close> is left out).
  The property \<open>size\<close>, which \<open>updateJoints\<close> reads, is an optional field: \<open>None\<close> is
  JavaScript's \<open>undefined\<close>.  Object ids are \<open>obj_1\<close>, \<open>obj_2\<close>, ...; the model keeps the number.
\<close>

record user_data =
  uid :: nat
  otype :: string
  pickable :: bool
  velocity :: vec3
  isStatic :: bool
  radius :: real
  onFloor :: bool
  usize :: "real option"

text \<open>
  A mesh: position, geometry, the material's colour as the string that
  \<open>material.color.getHexString()\<close> returns, the emissive tint, and the user data.
\<close>

record mesh =
  position :: vec3
  geom :: geometry
  colorHex :: string
  emissive :: nat
  emissiveIntensity :: real
  userData :: user_data

record collider =
  cposition :: vec3
  cradius :: real

text \<open>
  The registry.  \<open>objects\<close> is the insertion-ordered \<open>Map\<close> from id to mesh, as the list
  of its entries; \<open>attachedObject\<close> is a reference to one mesh, kept as that mesh's id
  (\<open>spawnObject\<close> stores a mesh under the id it writes into the user data, so the key of
  an entry is the \<open>userData.id\<close> that \<open>update\<close> and \<open>checkClamping\<close> compare).
  \<open>this.gravity\<close> is assigned once, in the constructor, and is the constant \<open>gravity\<close>;
  \<open>attachPoint\<close> is written and never read, and is left out.
\<close>

record object_manager =
  objects :: "(nat \<times> mesh) list"
  nextId :: nat
  attachedObject :: "nat option"

definition gravity :: real where
  "gravity = - 9.8"

definition ObjectManager_new :: object_manager where
  "ObjectManager_new = \<lparr>objects = [], nextId = 1, attachedObject = None\<rparr>"

subsection \<open>\<open>ObjectManager.update\<close>\<close>

text \<open>Gravity, velocity and the floor collision of one object (lines 30 to 49).\<close>

definition integrate :: "real \<Rightarrow> mesh \<Rightarrow> mesh" where
  "integrate dt obj =
    (let u = userData obj;
         vel1 = (if \<not> onFloor u then (velocity u)\<lparr>vy := vy (velocity u) + gravity * dt\<rparr>
                 else velocity u);
         pos1 = addScaledVector (position obj) vel1 dt
     in if vy pos1 < radius u
        then obj\<lparr>position := pos1\<lparr>vy := radius u\<rparr>,
                 userData := u\<lparr>velocity := \<lparr>vx = vx vel1 * 0.9, vy = 0, vz = vz vel1 * 0.9\<rparr>,
                                onFloor := True\<rparr>\<rparr>
        else obj\<lparr>position := pos1,
                 userData := u\<lparr>velocity := vel1, onFloor := False\<rparr>\<rparr>)"

text \<open>The push of one arm collider on one object (lines 54 to 71).\<close>

definition pushAway :: "mesh \<Rightarrow> collider \<Rightarrow> mesh" where
  "pushAway obj c =
    (let u = userData obj;
         dist = distanceTo (position obj) (cposition c);
         minDist = radius u + cradius c
     in if dist < minDist
        then (let pushDir0 = normalize (subVectors (position obj) (cposition c));
                  pushDir1 = (if vy pushDir0 < 0 then pushDir0\<lparr>vy := 0.1\<rparr> else pushDir0);
                  pushDir = normalize pushDir1;
                  overlap = minDist - dist
              in obj\<lparr>position := addScaledVector (position obj) pushDir (overlap * 1.5),
                     userData := u\<lparr>velocity := addScaledVector (velocity u) pushDir 2.0\<rparr>\<rparr>)
        else obj)"

definition armCollisions :: "collider list \<Rightarrow> mesh \<Rightarrow> mesh" where
  "armCollisions armColliders obj =
    (if length armColliders > 0 then foldl pushAway obj armColliders else obj)"

text \<open>The body of the loop over the registry for one entry.\<close>

definition updateEntry :: "object_manager \<Rightarrow> real \<Rightarrow> collider list \<Rightarrow> nat \<times> mesh \<Rightarrow> nat \<times> mesh" where
  "updateEntry om dt armColliders e =
    (case e of (i, obj) \<Rightarrow>
      if attachedObject om = Some i then (i, obj)
      else if isStatic (userData obj) then (i, obj)
      else (i, armCollisions armColliders (integrate dt obj)))"

definition update :: "real \<Rightarrow> collider list \<Rightarrow> object_manager \<Rightarrow> object_manager" where
  "update dt0 armColliders om =
    (let dt = min dt0 0.05
     in om\<lparr>objects := map (updateEntry om dt armColliders) (objects om)\<rparr>)"

text \<open>Several physics steps in a row, one elapsed time per step.\<close>

definition updates :: "real list \<Rightarrow> collider list \<Rightarrow> object_manager \<Rightarrow> object_manager" where
  "updates dts armColliders om = foldl (\<lambda>m dt. update dt armColliders m) om dts"

subsection \<open>\<open>spawnObject\<close>\<close>

definition makeGeometry :: "string \<Rightarrow> real \<Rightarrow> geometry" where
  "makeGeometry ty sz =
    (if ty = ''sphere'' then SphereGeometry (sz / 2)
     else if ty = ''cylinder'' then CylinderGeometry (sz / 2) (sz / 2) sz
     else BoxGeometry sz sz sz)"

definition spawnObject :: "string \<Rightarrow> vec3 \<Rightarrow> string \<Rightarrow> real \<Rightarrow> object_manager \<Rightarrow> nat \<times> object_manager" where
  "spawnObject ty pos col sz om =
    (let i = nextId om;
         m = \<lparr>position = pos, geom = makeGeometry ty sz, colorHex = col,
              emissive = 0, emissiveIntensity = 1,
              userData = \<lparr>uid = i, otype = ty, pickable = True, velocity = Vector3 0 0 0,
                          isStatic = False, radius = sz / 2, onFloor = False, usize = None\<rparr>\<rparr>
     in (i, om\<lparr>objects := objects om @ [(i, m)], nextId := i + 1\<rparr>))"

subsection \<open>Clamping, attaching, releasing\<close>

text \<open>
  \<open>obj.geometry.parameters.width || obj.geometry.parameters.radius * 2 || 0.3\<close>:
  a missing parameter is \<open>undefined\<close>, \<open>undefined * 2\<close> is NaN, and 0 and NaN are falsy.
\<close>

definition objSize :: "geometry \<Rightarrow> real" where
  "objSize g =
    (case g of
       BoxGeometry w h d \<Rightarrow> (if w \<noteq> 0 then w else 0.3)
     | SphereGeometry r \<Rightarrow> (if r * 2 \<noteq> 0 then r * 2 else 0.3)
     | CylinderGeometry rt rb h \<Rightarrow> 0.3)"

text \<open>
  The scan of \<open>checkClamping\<close>: the state of the loop is \<open>(closestObject, closestDistance)\<close>.
  The finger positions are passed by the caller and never read.
\<close>

definition clampStep :: "object_manager \<Rightarrow> vec3 \<Rightarrow> real \<Rightarrow> (nat option \<times> real) \<Rightarrow> nat \<times> mesh
    \<Rightarrow> (nat option \<times> real)" where
  "clampStep om centerPos gripperWidth st e =
    (case e of (i, obj) \<Rightarrow>
      if \<not> pickable (userData obj) then st
      else if attachedObject om = Some i then st
      else (let distance = distanceTo centerPos (position obj)
            in if distance < snd st
               then (let sz = objSize (geom obj)
                     in if gripperWidth \<ge> sz - 0.05 \<and> gripperWidth \<le> sz + 0.2
                        then (Some i, distance) else st)
               else st))"

text \<open>
  The tests of the scan other than the test on the distance: the entry is pickable, is not
  the attached object, and the gripper width is within the tolerance around its size.
\<close>

definition clampable :: "object_manager \<Rightarrow> real \<Rightarrow> nat \<times> mesh \<Rightarrow> bool" where
  "clampable om gripperWidth e =
    (case e of (i, obj) \<Rightarrow>
      pickable (userData obj) \<and> attachedObject om \<noteq> Some i
      \<and> gripperWidth \<ge> objSize (geom obj) - 0.05 \<and> gripperWidth \<le> objSize (geom obj) + 0.2)"

definition clampScan :: "object_manager \<Rightarrow> vec3 \<Rightarrow> real \<Rightarrow> (nat option \<times> real)" where
  "clampScan om centerPos gripperWidth =
    foldl (clampStep om centerPos gripperWidth) (None, 1.0) (objects om)"

definition checkClamping :: "object_manager \<Rightarrow> vec3 \<Rightarrow> real \<Rightarrow> nat option" where
  "checkClamping om centerPos gripperWidth =
    (case clampScan om centerPos gripperWidth of
       (Some i, closestDistance) \<Rightarrow> (if closestDistance < 0.3 then Some i else None)
     | (None, closestDistance) \<Rightarrow> None)"

text \<open>Apply a change to the mesh stored under an id (a write through the reference).\<close>

definition modifyObject :: "nat \<Rightarrow> (mesh \<Rightarrow> mesh) \<Rightarrow> (nat \<times> mesh) list \<Rightarrow> (nat \<times> mesh) list" where
  "modifyObject i f objs = map (\<lambda>(j, m). if j = i then (j, f m) else (j, m)) objs"

definition attachToGripper :: "nat \<Rightarrow> object_manager \<Rightarrow> object_manager" where
  "attachToGripper i om =
    om\<lparr>attachedObject := Some i,
       objects := modifyObject i (\<lambda>m. m\<lparr>emissive := 0xff6b35, emissiveIntensity := 0.3\<rparr>) (objects om)\<rparr>"

definition releaseObject :: "object_manager \<Rightarrow> object_manager" where
  "releaseObject om =
    (case attachedObject om of
       None \<Rightarrow> om
     | Some i \<Rightarrow>
        om\<lparr>attachedObject := None,
           objects := modifyObject i
             (\<lambda>m. m\<lparr>emissive := 0, emissiveIntensity := 0,
                     userData := (userData m)\<lparr>onFloor := False, velocity := Vector3 0 0 0\<rparr>\<rparr>)
             (objects om)\<rparr>)"

definition updateAttachedObject :: "vec3 \<Rightarrow> object_manager \<Rightarrow> object_manager" where
  "updateAttachedObject gripperWorldPosition om =
    (case attachedObject om of
       None \<Rightarrow> om
     | Some i \<Rightarrow>
        om\<lparr>objects := modifyObject i
             (\<lambda>m. m\<lparr>position := gripperWorldPosition\<lparr>vy := vy gripperWorldPosition + 0.3\<rparr>\<rparr>)
             (objects om)\<rparr>)"

text \<open>\<open>Map.get\<close>: the mesh stored under an id.\<close>

definition getObject :: "object_manager \<Rightarrow> nat \<Rightarrow> mesh option" where
  "getObject om i = map_of (objects om) i"

section \<open>The grasp part of \<open>RobotArmSimulator.updateJoints\<close> (robotArm.js)\<close>

definition gripperWidthOf :: "real \<Rightarrow> real" where
  "gripperWidthOf gripperAngle = 0.16 + (degToRad gripperAngle * 0.4) * 2"

text \<open>\<open>this.objectManager.attachedObject.userData.size || 0.3\<close>.\<close>

definition attachedSize :: "object_manager \<Rightarrow> nat \<Rightarrow> real" where
  "attachedSize om i =
    (case getObject om i of
       None \<Rightarrow> 0.3
     | Some m \<Rightarrow> (case usize (userData m) of
                    None \<Rightarrow> 0.3
                  | Some s \<Rightarrow> (if s \<noteq> 0 then s else 0.3)))"

text \<open>
  Lines 564 to 602 of \<open>updateJoints\<close>: the pickup test, the release test, and the move of
  the attached object.  \<open>gripperAngle\<close> is \<open>this.angles.gripper\<close> after the merge
  \<open>this.angles = { ...this.angles, ...angles }\<close>; \<open>gripperPos\<close> is the result of
  \<open>getGripperCenterPosition()\<close>, which the scene graph computes from the joint rotations.
  The rotations that the function writes to the scene graph are left out.
\<close>

definition pickupPhase :: "real \<Rightarrow> vec3 \<Rightarrow> object_manager \<Rightarrow> object_manager" where
  "pickupPhase gripperAngle gripperPos om =
    (if attachedObject om = None
     then (if gripperAngle < 40 \<and> gripperAngle > 0
           then (case checkClamping om gripperPos (gripperWidthOf gripperAngle) of
                   Some i \<Rightarrow> attachToGripper i om
                 | None \<Rightarrow> om)
           else om)
     else om)"

definition releasePhase :: "real \<Rightarrow> object_manager \<Rightarrow> object_manager" where
  "releasePhase gripperAngle om =
    (case attachedObject om of
       None \<Rightarrow> om
     | Some i \<Rightarrow> (if gripperWidthOf gripperAngle > attachedSize om i + 0.1
                  then releaseObject om else om))"

definition updateJoints :: "real \<Rightarrow> vec3 \<Rightarrow> object_manager \<Rightarrow> object_manager" where
  "updateJoints gripperAngle gripperPos om =
    updateAttachedObject gripperPos
      (releasePhase gripperAngle (pickupPhase gripperAngle gripperPos om))"

section \<open>JavaScript truthiness and comparisons with \<open>undefined\<close>\<close>

text \<open>
  A property that may be missing is an \<open>option\<close>.  \<open>!v\<close> holds for \<open>undefined\<close> and for the
  number 0; a comparison with \<open>undefined\<close> is false.
\<close>

definition falsy :: "'a::zero option \<Rightarrow> bool" where
  "falsy v = (case v of None \<Rightarrow> True | Some x \<Rightarrow> x = 0)"

definition js_less :: "'a::ord option \<Rightarrow> 'a \<Rightarrow> bool" where
  "js_less v b = (case v of None \<Rightarrow> False | Some a \<Rightarrow> a < b)"

definition js_greater :: "'a::ord option \<Rightarrow> 'a \<Rightarrow> bool" where
  "js_greater v b = (case v of None \<Rightarrow> False | Some a \<Rightarrow> a > b)"

definition le_js :: "'a::ord \<Rightarrow> 'a option \<Rightarrow> bool" where
  "le_js a v = (case v of None \<Rightarrow> False | Some b \<Rightarrow> a \<le> b)"

text \<open>\<open>xs[k]\<close>: \<open>undefined\<close> beyond the end of the array.\<close>

definition at_index :: "'a list \<Rightarrow> nat \<Rightarrow> 'a option" where
  "at_index xs k = (if k < length xs then Some (xs ! k) else None)"

text \<open>\<open>String.prototype.toLowerCase\<close> on ASCII strings.\<close>

definition lowerChar :: "char \<Rightarrow> char" where
  "lowerChar c =
    (let n = (of_char c :: nat) in if 65 \<le> n \<and> n \<le> 90 then char_of (n + 32) else c)"

definition toLowerCase :: "string \<Rightarrow> string" where
  "toLowerCase s = map lowerChar s"

section \<open>The progress store (class \<open>Storage\<close> in storage.js)\<close>

text \<open>
  The persisted record; \<open>animations\<close>, \<open>sandboxScenes\<close>, \<open>preferences\<close> and \<open>lastUpdated\<close>
  are not read or written by \<open>saveProgress\<close> and are left out.  \<open>levelStars\<close> and
  \<open>levelBestTimes\<close> are objects keyed by level id.
\<close>

record progress_data =
  unlockedLevels :: "int list"
  completedLevels :: "int list"
  levelStars :: "int \<Rightarrow> int option"
  levelBestTimes :: "int \<Rightarrow> real option"

record app_data =
  version :: string
  progress :: progress_data

text \<open>
  What \<open>localStorage\<close> holds under the storage key: nothing, a string that
  \<open>JSON.parse\<close> rejects, or the JSON of a record.  \<open>setItemThrows\<close> says whether
  \<open>localStorage.setItem\<close> raises (quota exceeded); \<open>saveAll\<close> catches that.
\<close>

datatype stored_item = NoItem | Unparseable | Parsed app_data

record local_storage =
  item :: stored_item
  setItemThrows :: bool

definition storageVersion :: string where
  "storageVersion = ''1.0''"

definition getDefaultData :: app_data where
  "getDefaultData =
    \<lparr>version = storageVersion,
     progress = \<lparr>unlockedLevels = [0], completedLevels = [],
                 levelStars = Map.empty, levelBestTimes = Map.empty\<rparr>\<rparr>"

definition loadAll :: "local_storage \<Rightarrow> app_data" where
  "loadAll ls =
    (case item ls of
       NoItem \<Rightarrow> getDefaultData
     | Unparseable \<Rightarrow> getDefaultData
     | Parsed parsed \<Rightarrow> (if version parsed = storageVersion then parsed else getDefaultData))"

definition saveAll :: "app_data \<Rightarrow> local_storage \<Rightarrow> bool \<times> local_storage" where
  "saveAll data ls =
    (if setItemThrows ls then (False, ls)
     else (True, ls\<lparr>item := Parsed (data\<lparr>version := storageVersion\<rparr>)\<rparr>))"

text \<open>
  \<open>loadAll\<close> falls back to the default record when there is no item, when the item does
  not parse, and when its version differs.  \<open>saveProgressData\<close> is the part of
  \<open>saveProgress\<close> between \<open>loadAll\<close> and \<open>saveAll\<close>, on \<open>data.progress\<close>.
\<close>

definition saveProgressData :: "int \<Rightarrow> int \<Rightarrow> real \<Rightarrow> progress_data \<Rightarrow> progress_data" where
  "saveProgressData levelId stars time p =
    (let p1 = (if falsy (levelStars p levelId) \<or> js_less (levelStars p levelId) stars
               then p\<lparr>levelStars := (levelStars p)(levelId \<mapsto> stars)\<rparr> else p);
         p2 = (if falsy (levelBestTimes p1 levelId) \<or> js_greater (levelBestTimes p1 levelId) time
               then p1\<lparr>levelBestTimes := (levelBestTimes p1)(levelId \<mapsto> time)\<rparr> else p1);
         p3 = (if levelId \<notin> set (completedLevels p2)
               then p2\<lparr>completedLevels := completedLevels p2 @ [levelId]\<rparr> else p2);
         nextLevelId = levelId + 1
     in if nextLevelId \<le> 10 \<and> nextLevelId \<notin> set (unlockedLevels p3)
        then p3\<lparr>unlockedLevels := unlockedLevels p3 @ [nextLevelId]\<rparr> else p3)"

definition saveProgress :: "int \<Rightarrow> int \<Rightarrow> real \<Rightarrow> local_storage \<Rightarrow> progress_data \<times> local_storage" where
  "saveProgress levelId stars time ls =
    (let data = loadAll ls;
         data' = data\<lparr>progress := saveProgressData levelId stars time (progress data)\<rparr>
     in (progress data', snd (saveAll data' ls)))"

definition loadProgress :: "local_storage \<Rightarrow> progress_data" where
  "loadProgress ls = progress (loadAll ls)"

section \<open>The level manager (class \<open>LevelManager\<close> in storage.js)\<close>

text \<open>
  The fields of a level descriptor (an entry of \<open>LEVELS\<close>) that \<open>update\<close>,
  \<open>calculateStars\<close> and \<open>completeLevel\<close> read; \<open>timeLimit: null\<close> is \<open>None\<close>.
\<close>

record stars_data =
  time :: "real list option"

record level_data =
  levelId :: int
  timeLimit :: "real option"
  stars :: "stars_data option"

text \<open>
  A target zone: the entry of \<open>targetMeshes\<close> (position, and the descriptor fields copied
  into its user data) together with its entry of \<open>targetStates\<close>.  \<open>createTarget\<close> pushes
  to both arrays and \<open>clearTargets\<close> empties both, so the two are kept as one list.
\<close>

record target_zone =
  tposition :: vec3
  tsize :: real
  accepts :: "string list option"
  requiredColor :: "string option"
  filled :: bool
  tobject :: "nat option"

record level_manager =
  currentLevel :: "level_data option"
  levelStartTime :: real
  elapsedTime :: real
  isActive :: bool
  targets :: "target_zone list"

datatype frame_result =
    Playing real
  | Completed real int
  | Failed string

definition createTarget :: "vec3 \<Rightarrow> real \<Rightarrow> string list option \<Rightarrow> string option
    \<Rightarrow> level_manager \<Rightarrow> level_manager" where
  "createTarget pos sz acc col lm =
    lm\<lparr>targets := targets lm @
      [\<lparr>tposition = pos, tsize = sz, accepts = acc, requiredColor = col,
        filled = False, tobject = None\<rparr>]\<rparr>"

text \<open>
  The tests of the inner loop of \<open>updateTargetStates\<close> for one object and one target:
  \<open>True\<close> is the path that fills the target and breaks, \<open>False\<close> every path that goes on
  to the next target.
\<close>

definition matchesTarget :: "mesh \<Rightarrow> target_zone \<Rightarrow> bool" where
  "matchesTarget obj target =
    (if distanceTo (position obj) (tposition target) < tsize target
     then (case accepts target of
             None \<Rightarrow> False
           | Some acc \<Rightarrow>
               if otype (userData obj) \<in> set acc
               then (case requiredColor target of
                       None \<Rightarrow> True
                     | Some rc \<Rightarrow>
                         if rc \<noteq> [] then
                           (if toLowerCase (CHR ''#'' # colorHex obj) \<noteq> toLowerCase rc
                            then False else True)
                         else True)
               else False)
     else False)"

text \<open>The inner loop for one object: fill the first matching target, then break.\<close>

fun fillFirst :: "mesh \<Rightarrow> target_zone list \<Rightarrow> target_zone list" where
  "fillFirst obj [] = []"
| "fillFirst obj (t # ts) =
    (if matchesTarget obj t
     then t\<lparr>filled := True, tobject := Some (uid (userData obj))\<rparr> # ts
     else t # fillFirst obj ts)"

definition resetState :: "target_zone \<Rightarrow> target_zone" where
  "resetState t = t\<lparr>filled := False, tobject := None\<rparr>"

definition getAllObjects :: "object_manager \<Rightarrow> mesh list" where
  "getAllObjects om = map snd (objects om)"

definition updateTargetStates :: "object_manager \<Rightarrow> level_manager \<Rightarrow> level_manager" where
  "updateTargetStates om lm =
    lm\<lparr>targets := foldl (\<lambda>ts obj. fillFirst obj ts) (map resetState (targets lm))
                      (getAllObjects om)\<rparr>"

definition checkWinCondition :: "object_manager \<Rightarrow> level_manager \<Rightarrow> bool \<times> level_manager" where
  "checkWinCondition om lm =
    (if currentLevel lm = None then (False, lm)
     else (let lm' = updateTargetStates om lm
           in (list_all filled (targets lm'), lm')))"

definition calculateStars :: "level_manager \<Rightarrow> int" where
  "calculateStars lm =
    (case currentLevel lm of
       None \<Rightarrow> 1
     | Some lvl \<Rightarrow>
        (case stars lvl of
           None \<Rightarrow> 1
         | Some st \<Rightarrow>
            (case time st of
               None \<Rightarrow> 1
             | Some thresholds \<Rightarrow>
                 if le_js (elapsedTime lm) (at_index thresholds 0) then 3
                 else if le_js (elapsedTime lm) (at_index thresholds 1) then 2
                 else if le_js (elapsedTime lm) (at_index thresholds 2) then 1
                 else 1)))"

text \<open>
  \<open>LevelManager.update\<close>; \<open>now\<close> is the value of \<open>performance.now()\<close>.  The result is
  \<open>None\<close> for the \<open>null\<close> of an inactive manager.
\<close>

definition levelUpdate :: "real \<Rightarrow> object_manager \<Rightarrow> level_manager
    \<Rightarrow> frame_result option \<times> level_manager" where
  "levelUpdate now om lm =
    (case currentLevel lm of
       None \<Rightarrow> (None, lm)
     | Some lvl \<Rightarrow>
        if \<not> isActive lm then (None, lm)
        else (let lm1 = lm\<lparr>elapsedTime := (now - levelStartTime lm) / 1000\<rparr>
              in if \<not> falsy (timeLimit lvl) \<and> js_less (timeLimit lvl) (elapsedTime lm1)
                 then (Some (Failed ''timeout''), lm1)
                 else (case checkWinCondition om lm1 of
                         (won, lm2) \<Rightarrow>
                           if won then (Some (Completed (elapsedTime lm2) (calculateStars lm2)), lm2)
                           else (Some (Playing (elapsedTime lm2)), lm2))))"

definition completeLevel :: "level_manager \<Rightarrow> local_storage \<Rightarrow> level_manager \<times> local_storage" where
  "completeLevel lm ls =
    (case currentLevel lm of
       None \<Rightarrow> (lm, ls)
     | Some lvl \<Rightarrow>
        (lm\<lparr>isActive := False\<rparr>,
         snd (saveProgress (levelId lvl) (calculateStars lm) (elapsedTime lm) ls)))"

section \<open>Objects at rest, and concrete scenes\<close>

text \<open>An object at rest on the floor: its height is its radius and it does not move.\<close>

definition atRest :: "mesh \<Rightarrow> bool" where
  "atRest obj \<longleftrightarrow>
    vy (position obj) = radius (userData obj) \<and> velocity (userData obj) = Vector3 0 0 0"

text \<open>
  Registries built with \<open>spawnObject\<close>, used to run the definitions on concrete inputs.
  The gripper centre is at \<open>gripperAt\<close>; \<open>nearPos\<close> is 0.1 away from it and \<open>farPos\<close> 0.5.
  \<open>heldSphere\<close> is the registry after the gripper, at 10 degrees, has picked the sphere up.
\<close>

definition gripperAt :: vec3 where
  "gripperAt = Vector3 1 0.15 0"

definition nearPos :: vec3 where
  "nearPos = Vector3 1.1 0.15 0"

definition farPos :: vec3 where
  "farPos = Vector3 1.5 0.15 0"

definition sphereScene :: object_manager where
  "sphereScene = snd (spawnObject ''sphere'' nearPos ''ff4757'' 0.2 ObjectManager_new)"

definition cubeNear :: object_manager where
  "cubeNear = snd (spawnObject ''cube'' nearPos ''ff6b35'' 0.3 ObjectManager_new)"

definition cubeFar :: object_manager where
  "cubeFar = snd (spawnObject ''cube'' farPos ''ff6b35'' 0.3 ObjectManager_new)"

definition heldSphere :: object_manager where
  "heldSphere = updateJoints 10 gripperAt sphereScene"

definition sphereMesh :: mesh where
  "sphereMesh = snd (hd (objects sphereScene))"

definition cubeNearMesh :: mesh where
  "cubeNearMesh = snd (hd (objects cubeNear))"

definition cubeFarMesh :: mesh where
  "cubeFarMesh = snd (hd (objects cubeFar))"

definition heldMesh :: mesh where
  "heldMesh = snd (hd (objects heldSphere))"

text \<open>
  Registries with two objects: the near cube with a second cube 0.5 away, and the near
  cube with a cube of size 0.6 at the same place.
\<close>

definition twoCubes :: object_manager where
  "twoCubes = snd (spawnObject ''cube'' farPos ''ff4757'' 0.3 cubeNear)"

definition twoCubesFarMesh :: mesh where
  "twoCubesFarMesh = snd (last (objects twoCubes))"

definition nearAndBig :: object_manager where
  "nearAndBig = snd (spawnObject ''cube'' nearPos ''ffa502'' 0.6 cubeNear)"

definition bigMesh :: mesh where
  "bigMesh = snd (last (objects nearAndBig))"

definition armSphere :: collider where
  "armSphere = \<lparr>cposition = Vector3 1 0 0, cradius = 0.25\<rparr>"

definition pushedScene :: object_manager where
  "pushedScene = update 0.016 [armSphere] cubeNear"

definition pushedMesh :: mesh where
  "pushedMesh = snd (hd (objects pushedScene))"

text \<open>
  Levels 1 and 6 of the level table, as \<open>loadLevel\<close> sets the manager up for them (one
  \<open>createTarget\<close> per target of the level), and registries with one cube lying on the
  first target of the level.  The three targets of level 6 are stacked 0.3 apart and have
  radius 0.5, so neighbouring targets overlap.
\<close>

definition level1 :: level_data where
  "level1 = \<lparr>levelId = 1, timeLimit = Some 120, stars = Some \<lparr>time = Some [60, 90, 120]\<rparr>\<rparr>"

definition level6 :: level_data where
  "level6 = \<lparr>levelId = 6, timeLimit = Some 300, stars = Some \<lparr>time = Some [150, 225, 300]\<rparr>\<rparr>"

definition startedLevel :: "level_data \<Rightarrow> level_manager" where
  "startedLevel lvl =
    \<lparr>currentLevel = Some lvl, levelStartTime = 0, elapsedTime = 0, isActive = True, targets = []\<rparr>"

definition level1Manager :: level_manager where
  "level1Manager = createTarget (Vector3 (- 1.5) 0.15 (- 1)) 0.5 (Some [''cube'']) None
     (startedLevel level1)"

definition level6Manager :: level_manager where
  "level6Manager =
     createTarget (Vector3 (- 2) (0.15 + 0.6) 0) 0.5 (Some [''cube'']) None
       (createTarget (Vector3 (- 2) (0.15 + 0.3) 0) 0.5 (Some [''cube'']) None
          (createTarget (Vector3 (- 2) 0.15 0) 0.5 (Some [''cube'']) None
             (startedLevel level6)))"

definition cubeOnTarget :: object_manager where
  "cubeOnTarget =
    snd (spawnObject ''cube'' (Vector3 (- 1.5) 0.15 (- 1)) ''ff6b35'' 0.3 ObjectManager_new)"

definition cubeOnTargetMesh :: mesh where
  "cubeOnTargetMesh = snd (hd (objects cubeOnTarget))"

definition cubeOnStack :: object_manager where
  "cubeOnStack = snd (spawnObject ''cube'' (Vector3 (- 2) 0.15 0) ''ff6b35'' 0.3 ObjectManager_new)"

definition cubeOnStackMesh :: mesh where
  "cubeOnStackMesh = snd (hd (objects cubeOnStack))"

text \<open>
  A cube lying on the top target of level 6, alone and together with the cube on the
  lowest target.
\<close>

definition cubeOnTop :: object_manager where
  "cubeOnTop =
    snd (spawnObject ''cube'' (Vector3 (- 2) (0.15 + 0.6) 0) ''ffa502'' 0.3 ObjectManager_new)"

definition cubeOnTopMesh :: mesh where
  "cubeOnTopMesh = snd (hd (objects cubeOnTop))"

definition stackOfTwo :: object_manager where
  "stackOfTwo =
    snd (spawnObject ''cube'' (Vector3 (- 2) (0.15 + 0.6) 0) ''ffa502'' 0.3 cubeOnStack)"

text \<open>
  An empty, writable store, and the stores after \<open>saveProgress(1, 3, 0)\<close> and then
  \<open>saveProgress(1, 3, 5)\<close>.
\<close>

definition emptyStore :: local_storage where
  "emptyStore = \<lparr>item = NoItem, setItemThrows = False\<rparr>"

definition storeAfterFirst :: local_storage where
  "storeAfterFirst = snd (saveProgress 1 3 0 emptyStore)"

definition storeAfterSecond :: local_storage where
  "storeAfterSecond = snd (saveProgress 1 3 5 storeAfterFirst)"

section \<open>Physics step: helper lemmas\<close>

lemma update_attachedObject: "attachedObject (update dt cs om) = attachedObject om"
  by (simp add: update_def Let_def)

lemma update_length: "length (objects (update dt cs om)) = length (objects om)"
  by (simp add: update_def Let_def)

lemma integrate_static: "isStatic (userData (integrate dt obj)) = isStatic (userData obj)"
  by (simp add: integrate_def Let_def)

lemma integrate_radius: "radius (userData (integrate dt obj)) = radius (userData obj)"
  by (simp add: integrate_def Let_def)

lemma integrate_floor: "radius (userData obj) \<le> vy (position (integrate dt obj))"
  by (simp add: integrate_def Let_def)

text \<open>
  An object at rest stays at rest: without the floor flag gravity pulls it to
  \<open>radius + gravity * dt\<^sup>2\<close>, which the floor collision clamps back; with the flag it does
  not move at all.
\<close>

lemma integrate_atRest:
  assumes "atRest obj"
  shows "atRest (integrate dt obj)"
proof -
  define g where "g = gravity"
  have "g \<le> 0" by (simp add: g_def gravity_def)
  then have sq: "g * dt * dt \<le> 0"
    by (simp add: mult_nonpos_nonneg mult.assoc)
  show ?thesis
  proof (cases "g * dt = 0")
    case True
    then show ?thesis using assms
      by (simp add: atRest_def integrate_def Let_def Vector3_def addScaledVector_def g_def [symmetric])
  next
    case False
    then have "g * dt * dt \<noteq> 0" by auto
    with sq have "g * dt * dt < 0" by (simp only: less_le) simp
    then show ?thesis using assms
      by (simp add: atRest_def integrate_def Let_def Vector3_def addScaledVector_def g_def [symmetric])
  qed
qed

lemma vlength_nonneg: "0 \<le> vlength v"
  by (simp add: vlength_def)

lemma normalize_vy_nonneg: "0 \<le> vy v \<Longrightarrow> 0 \<le> vy (normalize v)"
  by (simp add: normalize_def multiplyScalar_def vlength_nonneg)

lemma pushAway_static: "isStatic (userData (pushAway obj c)) = isStatic (userData obj)"
  by (simp add: pushAway_def Let_def)

lemma pushAway_radius: "radius (userData (pushAway obj c)) = radius (userData obj)"
  by (simp add: pushAway_def Let_def)

text \<open>The push direction has a vertical component that is never negative.\<close>

lemma pushAway_vy: "vy (position obj) \<le> vy (position (pushAway obj c))"
proof -
  let ?d = "normalize (subVectors (position obj) (cposition c))"
  let ?d1 = "if vy ?d < 0 then ?d\<lparr>vy := 0.1\<rparr> else ?d"
  have "0 \<le> vy ?d1" by simp
  then have "0 \<le> vy (normalize ?d1)" by (rule normalize_vy_nonneg)
  then show ?thesis
    by (auto simp add: pushAway_def Let_def addScaledVector_def intro!: mult_nonneg_nonneg)
qed

lemma foldl_pushAway:
  "isStatic (userData (foldl pushAway obj cs)) = isStatic (userData obj) \<and>
   radius (userData (foldl pushAway obj cs)) = radius (userData obj) \<and>
   vy (position obj) \<le> vy (position (foldl pushAway obj cs))"
proof (induction cs arbitrary: obj)
  case Nil
  show ?case by simp
next
  case (Cons c cs)
  have "vy (position obj) \<le> vy (position (pushAway obj c))" by (rule pushAway_vy)
  also have "\<dots> \<le> vy (position (foldl pushAway (pushAway obj c) cs))"
    using Cons.IH [of "pushAway obj c"] by simp
  finally show ?case
    using Cons.IH [of "pushAway obj c"] by (simp add: pushAway_static pushAway_radius)
qed

lemma armCollisions_props:
  "isStatic (userData (armCollisions cs obj)) = isStatic (userData obj) \<and>
   radius (userData (armCollisions cs obj)) = radius (userData obj) \<and>
   vy (position obj) \<le> vy (position (armCollisions cs obj))"
  using foldl_pushAway [of obj cs] by (simp add: armCollisions_def)

lemma armCollisions_Nil: "armCollisions [] obj = obj"
  by (simp add: armCollisions_def)

lemma updateEntry_fst: "fst (updateEntry om dt cs e) = fst e"
  by (cases e) (simp add: updateEntry_def)

lemma updateEntry_rest:
  assumes "attachedObject om \<noteq> Some i" "\<not> isStatic (userData obj)" "atRest obj"
  shows "\<exists>obj'. updateEntry om dt [] (i, obj) = (i, obj') \<and> \<not> isStatic (userData obj')
      \<and> atRest obj' \<and> radius (userData obj') = radius (userData obj)"
  using assms
  by (simp add: updateEntry_def armCollisions_Nil integrate_static integrate_atRest integrate_radius)

lemma update_rest:
  assumes "k < length (objects om)" "objects om ! k = (i, obj)"
    "attachedObject om \<noteq> Some i" "\<not> isStatic (userData obj)" "atRest obj"
  shows "\<exists>obj'. objects (update dt [] om) ! k = (i, obj') \<and> \<not> isStatic (userData obj')
      \<and> atRest obj' \<and> radius (userData obj') = radius (userData obj)"
proof -
  have "objects (update dt [] om) ! k = updateEntry om (min dt 0.05) [] (i, obj)"
    using assms(1,2) by (simp add: update_def Let_def)
  then show ?thesis
    using updateEntry_rest [OF assms(3,4,5), of "min dt 0.05"] by simp
qed

lemma updates_rest:
  assumes "k < length (objects om)" "objects om ! k = (i, obj)"
    "attachedObject om \<noteq> Some i" "\<not> isStatic (userData obj)" "atRest obj"
  shows "\<exists>obj'. objects (updates dts [] om) ! k = (i, obj') \<and> \<not> isStatic (userData obj')
      \<and> atRest obj' \<and> radius (userData obj') = radius (userData obj)"
  using assms
proof (induction dts arbitrary: om obj)
  case Nil
  then show ?case by (simp add: updates_def)
next
  case (Cons dt dts)
  from update_rest [OF Cons.prems, of dt]
  obtain o1 where o1: "objects (update dt [] om) ! k = (i, o1)" "\<not> isStatic (userData o1)"
      "atRest o1" "radius (userData o1) = radius (userData obj)"
    by blast
  have "\<exists>obj'. objects (updates dts [] (update dt [] om)) ! k = (i, obj')
      \<and> \<not> isStatic (userData obj') \<and> atRest obj'
      \<and> radius (userData obj') = radius (userData o1)"
    using Cons.prems(1,3) o1
    by (intro Cons.IH) (simp_all add: update_length update_attachedObject)
  then show ?case
    using o1(4) by (simp add: updates_def)
qed

section \<open>Grasping: helper lemmas\<close>

text \<open>Bounds on \<open>pi\<close>, from \<open>sin (pi / 6) = 1 / 2\<close> and the Taylor bound of the sine.\<close>

lemma pi_ge_3: "3 \<le> pi"
proof -
  have "sin (pi / 6) \<le> pi / 6" by (rule sin_x_le_x) simp
  then show ?thesis by (simp add: sin_30)
qed

lemma pi_le_33: "pi \<le> 3.3"
proof -
  define y where "y = pi / 6"
  have y0: "0 \<le> y" and y1: "y \<le> 2 / 3"
    using pi_less_4 by (simp_all add: y_def)
  have cube: "y ^ 3 \<le> (2 / 3) ^ 3"
    using y1 y0 by (rule power_mono)
  have "(\<Sum>m<3. sin_coeff m * y ^ m) = y"
    by (simp add: sin_coeff_def numeral_3_eq_3)
  with Maclaurin_sin_bound [of y 3] have "\<bar>sin y - y\<bar> \<le> inverse (fact 3) * \<bar>y\<bar> ^ 3"
    by simp
  moreover have "sin y = 1 / 2" by (simp add: y_def sin_30)
  moreover have "inverse (fact 3 :: real) = 1 / 6" by (simp add: fact_numeral)
  moreover have "\<bar>y\<bar> = y" using y0 by simp
  ultimately have "\<bar>1 / 2 - y\<bar> \<le> 1 / 6 * y ^ 3" by (simp only:)
  then have "y - 1 / 2 \<le> y ^ 3 / 6" by linarith
  with cube have "y \<le> 1 / 2 + ((2 / 3) ^ 3) / 6" by simp
  then show ?thesis by (simp add: y_def power3_eq_cube)
qed

lemma width_lower: "0 \<le> a \<Longrightarrow> 0.16 + a / 75 \<le> gripperWidthOf a"
proof -
  assume a: "0 \<le> a"
  have "a * 3 \<le> a * pi"
    using a pi_ge_3 by (rule mult_left_mono [rotated])
  then show ?thesis by (simp add: gripperWidthOf_def degToRad_def mult.commute)
qed

lemma width_upper: "0 \<le> a \<Longrightarrow> gripperWidthOf a \<le> 0.16 + a * 11 / 750"
proof -
  assume a: "0 \<le> a"
  have "a * pi \<le> a * 3.3"
    using a pi_le_33 by (rule mult_left_mono [rotated])
  then show ?thesis by (simp add: gripperWidthOf_def degToRad_def mult.commute)
qed

lemma width_10: "22 / 75 \<le> gripperWidthOf 10" "gripperWidthOf 10 \<le> 23 / 75"
  using width_lower [of 10] width_upper [of 10] by simp_all

lemma width_12: "32 / 100 \<le> gripperWidthOf 12" "gripperWidthOf 12 \<le> 336 / 1000"
  using width_lower [of 12] width_upper [of 12] by simp_all

lemma width_20: "0.4 < gripperWidthOf 20" "gripperWidthOf 20 \<le> 0.5"
  using width_lower [of 20] width_upper [of 20] by simp_all

lemma dist_along_x: "distanceTo (Vector3 a b c) (Vector3 (a + d) b c) = \<bar>d\<bar>"
  by (simp add: distanceTo_def vlength_def subVectors_def Vector3_def)

lemma dist_near: "distanceTo gripperAt nearPos = 1 / 10"
proof -
  have "distanceTo gripperAt nearPos = distanceTo (Vector3 1 0.15 0) (Vector3 (1 + 0.1) 0.15 0)"
    by (simp add: gripperAt_def nearPos_def)
  also have "\<dots> = \<bar>0.1\<bar>" by (rule dist_along_x)
  finally show ?thesis by simp
qed

lemma dist_far: "distanceTo gripperAt farPos = 1 / 2"
proof -
  have "distanceTo gripperAt farPos = distanceTo (Vector3 1 0.15 0) (Vector3 (1 + 0.5) 0.15 0)"
    by (simp add: gripperAt_def farPos_def)
  also have "\<dots> = \<bar>0.5\<bar>" by (rule dist_along_x)
  finally show ?thesis by simp
qed

text \<open>
  One step of the scan of \<open>checkClamping\<close>, with the test on the gripper width turned into
  the band it leaves for the size of the object.
\<close>

lemma clampStep_cases:
  "clampStep om c w st (i, obj) =
    (if pickable (userData obj) \<and> attachedObject om \<noteq> Some i
        \<and> distanceTo c (position obj) < snd st
        \<and> w - 0.2 \<le> objSize (geom obj) \<and> objSize (geom obj) \<le> w + 0.05
     then (Some i, distanceTo c (position obj)) else st)"
  by (auto simp add: clampStep_def Let_def)

text \<open>
  The scan as a whole.  Its result is the start state \<open>(null, 1.0)\<close> when no entry that
  passes the other tests is closer than 1.0; otherwise it is the first of the nearest such
  entries, with its distance.
\<close>

lemma clampStep_clampable:
  "clampStep om c w (r0, d0) (i, obj) =
    (if clampable om w (i, obj) \<and> distanceTo c (position obj) < d0
     then (Some i, distanceTo c (position obj)) else (r0, d0))"
  by (auto simp add: clampStep_def clampable_def Let_def)

lemma foldl_clampStep_char:
  assumes "foldl (clampStep om c w) (r0, d0) xs = (r, d)"
  shows "d \<le> d0
    \<and> (\<forall>e\<in>set xs. clampable om w e \<longrightarrow> d \<le> distanceTo c (position (snd e)))
    \<and> ((r, d) = (r0, d0)
        \<or> (\<exists>i obj. r = Some i \<and> (i, obj) \<in> set xs \<and> clampable om w (i, obj)
              \<and> d = distanceTo c (position obj) \<and> d < d0))"
  using assms
proof (induction xs arbitrary: r0 d0)
  case Nil
  then show ?case by simp
next
  case (Cons e xs)
  obtain j m where e: "e = (j, m)" by (cases e)
  obtain r1 d1 where s: "clampStep om c w (r0, d0) (j, m) = (r1, d1)"
    by (cases "clampStep om c w (r0, d0) (j, m)")
  from Cons.prems have f: "foldl (clampStep om c w) (r1, d1) xs = (r, d)"
    by (simp add: e s)
  note ih = Cons.IH [OF f]
  show ?case
  proof (cases "clampable om w (j, m) \<and> distanceTo c (position m) < d0")
    case True
    with s have rd: "r1 = Some j" "d1 = distanceTo c (position m)"
      by (simp_all add: clampStep_clampable)
    from ih rd True show ?thesis
      unfolding e by (auto simp add: less_le_trans)
  next
    case False
    with s have rd: "r1 = r0" "d1 = d0"
      by (auto simp add: clampStep_clampable)
    from ih rd False show ?thesis
      unfolding e by auto
  qed
qed

lemma clampScan_char:
  assumes "clampScan om c w = (r, d)"
  shows "d \<le> 1
    \<and> (\<forall>e\<in>set (objects om). clampable om w e \<longrightarrow> d \<le> distanceTo c (position (snd e)))
    \<and> ((r, d) = (None, 1)
        \<or> (\<exists>i obj. r = Some i \<and> (i, obj) \<in> set (objects om) \<and> clampable om w (i, obj)
              \<and> d = distanceTo c (position obj) \<and> d < 1))"
  using foldl_clampStep_char [of om c w None 1 "objects om" r d] assms
  by (simp add: clampScan_def)

lemma objSize_makeGeometry:
  "objSize (makeGeometry ty sz) = (if ty = ''cylinder'' \<or> sz = 0 then 0.3 else sz)"
  by (simp add: objSize_def makeGeometry_def)

lemma distinct_key_value:
  "distinct (map fst xs) \<Longrightarrow> (i, a) \<in> set xs \<Longrightarrow> (i, b) \<in> set xs \<Longrightarrow> a = b"
  by (rule eq_key_imp_eq_value)

lemma map_of_modifyObject:
  "map_of (modifyObject i f xs) i = map_option f (map_of xs i)"
  by (induction xs) (auto simp add: modifyObject_def)

lemma checkClamping_char:
  assumes "checkClamping om c w = Some i"
  shows "\<exists>obj. (i, obj) \<in> set (objects om) \<and> clampable om w (i, obj)
      \<and> distanceTo c (position obj) < 0.3
      \<and> (\<forall>e\<in>set (objects om). clampable om w e
            \<longrightarrow> distanceTo c (position obj) \<le> distanceTo c (position (snd e)))"
proof -
  obtain r d where scan: "clampScan om c w = (r, d)" by (cases "clampScan om c w")
  with assms have r: "r = Some i" and d: "d < 0.3"
    by (auto simp add: checkClamping_def split: option.splits if_splits)
  from clampScan_char [OF scan] r d show ?thesis by auto
qed

lemma updateAttachedObject_attached:
  "attachedObject (updateAttachedObject gp om) = attachedObject om"
  by (simp add: updateAttachedObject_def split: option.splits)

lemma releasePhase_attached:
  "attachedObject (releasePhase a om) = Some i \<Longrightarrow> attachedObject om = Some i"
  by (auto simp add: releasePhase_def releaseObject_def split: option.splits if_splits)

lemma updateJoints_attached:
  assumes "attachedObject (updateJoints a gp om) = Some i"
  shows "attachedObject (pickupPhase a gp om) = Some i"
proof -
  from assms have "attachedObject (releasePhase a (pickupPhase a gp om)) = Some i"
    by (simp add: updateJoints_def updateAttachedObject_attached)
  then show ?thesis by (rule releasePhase_attached)
qed

lemma pickupPhase_Some:
  assumes "attachedObject om = None" and "attachedObject (pickupPhase a gp om) = Some i"
  shows "0 < a \<and> a < 40 \<and> checkClamping om gp (gripperWidthOf a) = Some i"
  using assms
  by (auto simp add: pickupPhase_def attachToGripper_def split: if_splits option.splits)

lemma attached_after_pickup:
  assumes "distinct (map fst (objects om))" and "attachedObject om = None"
    and "attachedObject (pickupPhase a gp om) = Some i
      \<or> attachedObject (updateJoints a gp om) = Some i"
  shows "0 < a \<and> a < 40 \<and>
    (\<exists>obj. getObject om i = Some obj \<and> (i, obj) \<in> set (objects om)
       \<and> clampable om (gripperWidthOf a) (i, obj)
       \<and> distanceTo gp (position obj) < 0.3
       \<and> (\<forall>e\<in>set (objects om). clampable om (gripperWidthOf a) e
            \<longrightarrow> distanceTo gp (position obj) \<le> distanceTo gp (position (snd e))))"
proof -
  from assms(3) have "attachedObject (pickupPhase a gp om) = Some i"
    using updateJoints_attached by blast
  from pickupPhase_Some [OF assms(2) this]
  have a: "0 < a" "a < 40" and c: "checkClamping om gp (gripperWidthOf a) = Some i"
    by simp_all
  from checkClamping_char [OF c] obtain obj where
    obj: "(i, obj) \<in> set (objects om)" "clampable om (gripperWidthOf a) (i, obj)"
      "distanceTo gp (position obj) < 0.3"
      "\<forall>e\<in>set (objects om). clampable om (gripperWidthOf a) e
            \<longrightarrow> distanceTo gp (position obj) \<le> distanceTo gp (position (snd e))"
    by blast
  have "getObject om i = Some obj"
    using assms(1) obj(1) by (simp add: getObject_def)
  with a obj show ?thesis by blast
qed

lemma closest_clampable_is_clamped:
  assumes "distinct (map fst (objects om))" and "(i, obj) \<in> set (objects om)"
    and "clampable om w (i, obj)" and "distanceTo c (position obj) < 0.3"
    and "\<forall>e\<in>set (objects om). fst e \<noteq> i \<and> clampable om w e
          \<longrightarrow> distanceTo c (position obj) < distanceTo c (position (snd e))"
  shows "checkClamping om c w = Some i"
proof -
  obtain r d where scan: "clampScan om c w = (r, d)" by (cases "clampScan om c w")
  note ch = clampScan_char [OF scan]
  from ch assms(2,3) have dle: "d \<le> distanceTo c (position obj)" by fastforce
  with assms(4) have "d < 1" by simp
  with ch obtain k m where km: "r = Some k" "(k, m) \<in> set (objects om)" "clampable om w (k, m)"
      "d = distanceTo c (position m)"
    by auto
  have "k = i"
  proof (rule ccontr)
    assume "k \<noteq> i"
    with assms(5) km(2,3) have "distanceTo c (position obj) < distanceTo c (position m)"
      by fastforce
    with dle km(4) show False by simp
  qed
  with km(2) assms(1,2) have "m = obj" by (auto dest: distinct_key_value)
  with km(4) assms(4) have "d < 0.3" by simp
  with scan km(1) \<open>k = i\<close> show ?thesis by (simp add: checkClamping_def)
qed

lemma released_in_same_update:
  assumes "distinct (map fst (objects om))" and "(i, obj) \<in> set (objects om)"
    and "usize (userData obj) = None" and "attachedObject om = None"
    and "0 < a" "a < 40" and "0.4 < gripperWidthOf a"
    and "checkClamping om gp (gripperWidthOf a) = Some i"
  shows "attachedObject (pickupPhase a gp om) = Some i"
    and "attachedObject (updateJoints a gp om) = None"
proof -
  have p: "pickupPhase a gp om = attachToGripper i om"
    using assms(4,5,6,8) by (simp add: pickupPhase_def)
  show "attachedObject (pickupPhase a gp om) = Some i"
    by (simp add: p attachToGripper_def)
  have "map_of (objects om) i = Some obj"
    using assms(1,2) by simp
  then have "attachedSize (attachToGripper i om) i = 0.3"
    using assms(3)
    by (simp add: attachedSize_def getObject_def attachToGripper_def map_of_modifyObject)
  then show "attachedObject (updateJoints a gp om) = None"
    using assms(7)
    by (simp add: updateJoints_def p releasePhase_def updateAttachedObject_attached
        releaseObject_def attachToGripper_def)
qed

lemma kept_after_update:
  assumes "distinct (map fst (objects om))" and "(i, obj) \<in> set (objects om)"
    and "usize (userData obj) = None" and "attachedObject om = None"
    and "0 < a" "a < 40" and "gripperWidthOf a \<le> 0.4"
    and "checkClamping om gp (gripperWidthOf a) = Some i"
  shows "attachedObject (updateJoints a gp om) = Some i"
proof -
  have p: "pickupPhase a gp om = attachToGripper i om"
    using assms(4,5,6,8) by (simp add: pickupPhase_def)
  have "map_of (objects om) i = Some obj"
    using assms(1,2) by simp
  then have "attachedSize (attachToGripper i om) i = 0.3"
    using assms(3)
    by (simp add: attachedSize_def getObject_def attachToGripper_def map_of_modifyObject)
  then show ?thesis
    using assms(7)
    by (simp add: updateJoints_def p releasePhase_def updateAttachedObject_attached
        attachToGripper_def)
qed

text \<open>Registries that hold a single object.\<close>

lemma single_scan:
  assumes "objects om = [(i, obj)]" "attachedObject om = None" "pickable (userData obj)"
    "w - 0.2 \<le> objSize (geom obj)" "objSize (geom obj) \<le> w + 0.05"
  shows "checkClamping om gp w = (if distanceTo gp (position obj) < 0.3 then Some i else None)"
  using assms
  by (simp add: checkClamping_def clampScan_def clampStep_cases)

lemma single_pickup:
  assumes "objects om = [(i, obj)]" "attachedObject om = None" "pickable (userData obj)"
    "gripperWidthOf a - 0.2 \<le> objSize (geom obj)" "objSize (geom obj) \<le> gripperWidthOf a + 0.05"
    "0 < a" "a < 40"
  shows "pickupPhase a gp om
    = (if distanceTo gp (position obj) < 0.3 then attachToGripper i om else om)"
  using assms single_scan [OF assms(1-5), of gp]
  by (simp add: pickupPhase_def)

lemma attachedSize_single:
  assumes "objects om = [(i, obj)]" "usize (userData obj) = None"
  shows "attachedSize (attachToGripper i om) i = 0.3" "attachedSize om i = 0.3"
  using assms
  by (simp_all add: attachedSize_def getObject_def attachToGripper_def modifyObject_def)

lemma single_release:
  assumes "objects om = [(i, obj)]" "usize (userData obj) = None" "attachedObject om = Some i"
  shows "attachedObject (updateJoints a gp om) = (if gripperWidthOf a > 0.4 then None else Some i)"
  using assms attachedSize_single(2) [OF assms(1,2)]
  by (simp add: updateJoints_def pickupPhase_def releasePhase_def updateAttachedObject_attached
      releaseObject_def)

lemma single_update:
  assumes "objects om = [(i, obj)]" "attachedObject om = None" "pickable (userData obj)"
    "gripperWidthOf a - 0.2 \<le> objSize (geom obj)" "objSize (geom obj) \<le> gripperWidthOf a + 0.05"
    "0 < a" "a < 40" "usize (userData obj) = None"
  shows "attachedObject (updateJoints a gp om) =
    (if distanceTo gp (position obj) < 0.3 \<and> \<not> gripperWidthOf a > 0.4 then Some i else None)"
  using assms(2) attachedSize_single(1) [OF assms(1,8)]
  by (simp add: updateJoints_def single_pickup [OF assms(1-7)] releasePhase_def
      updateAttachedObject_attached releaseObject_def attachToGripper_def)

lemma single_update_state:
  assumes "objects om = [(i, obj)]" "attachedObject om = None" "pickable (userData obj)"
    "gripperWidthOf a - 0.2 \<le> objSize (geom obj)" "objSize (geom obj) \<le> gripperWidthOf a + 0.05"
    "0 < a" "a < 40" "usize (userData obj) = None"
    "distanceTo gp (position obj) < 0.3" "gripperWidthOf a \<le> 0.4"
  shows "updateJoints a gp om = updateAttachedObject gp (attachToGripper i om)"
  using assms(9,10) attachedSize_single(1) [OF assms(1,8)]
  by (simp add: updateJoints_def single_pickup [OF assms(1-7)] releasePhase_def attachToGripper_def)

text \<open>The concrete scenes.\<close>

lemma sphereScene_objects:
  "objects sphereScene = [(1, sphereMesh)]"
  "attachedObject sphereScene = None"
  "pickable (userData sphereMesh)"
  "usize (userData sphereMesh) = None"
  "position sphereMesh = nearPos"
  "objSize (geom sphereMesh) = 2 / 10"
  by (simp_all add: sphereMesh_def sphereScene_def spawnObject_def ObjectManager_new_def Let_def
      makeGeometry_def objSize_def)

lemma cubeNear_objects:
  "objects cubeNear = [(1, cubeNearMesh)]"
  "attachedObject cubeNear = None"
  "pickable (userData cubeNearMesh)"
  "usize (userData cubeNearMesh) = None"
  "position cubeNearMesh = nearPos"
  "objSize (geom cubeNearMesh) = 3 / 10"
  by (simp_all add: cubeNearMesh_def cubeNear_def spawnObject_def ObjectManager_new_def Let_def
      makeGeometry_def objSize_def)

lemma cubeNear_atRest:
  "\<not> isStatic (userData cubeNearMesh)"
  "vy (position cubeNearMesh) = radius (userData cubeNearMesh)"
  "velocity (userData cubeNearMesh) = Vector3 0 0 0"
  by (simp_all add: cubeNearMesh_def cubeNear_def spawnObject_def ObjectManager_new_def Let_def
      nearPos_def Vector3_def)

lemma cubeFar_objects:
  "objects cubeFar = [(1, cubeFarMesh)]"
  "attachedObject cubeFar = None"
  "pickable (userData cubeFarMesh)"
  "usize (userData cubeFarMesh) = None"
  "position cubeFarMesh = farPos"
  "objSize (geom cubeFarMesh) = 3 / 10"
  by (simp_all add: cubeFarMesh_def cubeFar_def spawnObject_def ObjectManager_new_def Let_def
      makeGeometry_def objSize_def)

lemma sphere_attached_at_10:
  "updateJoints 10 gripperAt sphereScene
    = updateAttachedObject gripperAt (attachToGripper 1 sphereScene)"
  using width_10
  by (intro single_update_state [OF sphereScene_objects(1,2,3)])
    (simp_all add: sphereScene_objects dist_near)

lemma heldSphere_objects:
  "objects heldSphere = [(1, heldMesh)]" "usize (userData heldMesh) = None"
  "objSize (geom heldMesh) = 2 / 10"
  unfolding heldMesh_def heldSphere_def sphere_attached_at_10
  by (simp_all add: updateAttachedObject_def attachToGripper_def modifyObject_def
      sphereScene_def spawnObject_def ObjectManager_new_def Let_def makeGeometry_def objSize_def)

lemma cubeNearMesh_geom: "geom cubeNearMesh = makeGeometry ''cube'' 0.3"
  by (simp add: cubeNearMesh_def cubeNear_def spawnObject_def ObjectManager_new_def Let_def)

lemma cubeNear_nextId: "nextId cubeNear = 2"
  by (simp add: cubeNear_def spawnObject_def ObjectManager_new_def Let_def)

lemma nearAndBig_objects:
  "objects nearAndBig = [(1, cubeNearMesh), (2, bigMesh)]"
  "attachedObject nearAndBig = None"
  "geom bigMesh = makeGeometry ''cube'' 0.6"
  "position bigMesh = nearPos"
  "pickable (userData bigMesh)"
  "distinct (map fst (objects nearAndBig))"
  by (simp_all add: bigMesh_def nearAndBig_def spawnObject_def Let_def cubeNear_objects(1,2)
      cubeNear_nextId)

lemma twoCubes_objects:
  "objects twoCubes = [(1, cubeNearMesh), (2, twoCubesFarMesh)]"
  "attachedObject twoCubes = None"
  "geom twoCubesFarMesh = makeGeometry ''cube'' 0.3"
  "position twoCubesFarMesh = farPos"
  "pickable (userData twoCubesFarMesh)"
  "distinct (map fst (objects twoCubes))"
  by (simp_all add: twoCubesFarMesh_def twoCubes_def spawnObject_def Let_def cubeNear_objects(1,2)
      cubeNear_nextId)

lemma nearAndBig_clamped: "checkClamping nearAndBig gripperAt (gripperWidthOf 10) = Some 1"
proof (rule closest_clampable_is_clamped [where obj = cubeNearMesh])
  show "distinct (map fst (objects nearAndBig))" by (rule nearAndBig_objects(6))
  show "(1, cubeNearMesh) \<in> set (objects nearAndBig)" by (simp add: nearAndBig_objects(1))
  show "clampable nearAndBig (gripperWidthOf 10) (1, cubeNearMesh)"
    using width_10
    by (simp add: clampable_def cubeNear_objects(3,6) nearAndBig_objects(2))
  show "distanceTo gripperAt (position cubeNearMesh) < 0.3"
    by (simp add: cubeNear_objects(5) dist_near)
  have "\<not> clampable nearAndBig (gripperWidthOf 10) (2, bigMesh)"
    using width_10
    by (simp add: clampable_def nearAndBig_objects(3) objSize_makeGeometry)
  then show "\<forall>e\<in>set (objects nearAndBig). fst e \<noteq> 1 \<and> clampable nearAndBig (gripperWidthOf 10) e
      \<longrightarrow> distanceTo gripperAt (position cubeNearMesh) < distanceTo gripperAt (position (snd e))"
    by (simp add: nearAndBig_objects(1))
qed

lemma nearAndBig_attached: "attachedObject (updateJoints 10 gripperAt nearAndBig) = Some 1"
proof (rule kept_after_update [where obj = cubeNearMesh])
  show "distinct (map fst (objects nearAndBig))" by (rule nearAndBig_objects(6))
  show "(1, cubeNearMesh) \<in> set (objects nearAndBig)" by (simp add: nearAndBig_objects(1))
  show "usize (userData cubeNearMesh) = None" by (rule cubeNear_objects(4))
  show "attachedObject nearAndBig = None" by (rule nearAndBig_objects(2))
  show "gripperWidthOf 10 \<le> 0.4" using width_10 by simp
  show "checkClamping nearAndBig gripperAt (gripperWidthOf 10) = Some 1"
    by (rule nearAndBig_clamped)
qed simp_all

section \<open>Claims about grasping\<close>

text \<open>
  Claim C1, as the code has it.  The registry is a \<open>Map\<close>, so the ids of its entries are
  distinct.  In a frame that starts with no object attached, an object becomes attached
  (by the pickup test of \<open>updateJoints\<close>, even if the release test of the same call
  drops it again) only if the gripper angle is strictly between 0 and 40 degrees and the
  object is pickable, closer than 0.3 to the gripper centre, no farther than any other
  entry that passes the tests, and of a size, as \<open>checkClamping\<close> reads it from the
  geometry, within \<open>[gripperWidth - 0.2, gripperWidth + 0.05]\<close>; that is the test
  \<open>gripperWidth >= objSize - 0.05 && gripperWidth <= objSize + 0.2\<close>.  For an object that
  is not a cylinder and was built with a size other than 0, the size read is the object's
  own size; so such an object whose own size is outside the band is not attached in this
  frame.  The scan starts from the bound 1.0: it ends without a candidate exactly when
  every entry that passes the other tests is at distance 1.0 or more, and otherwise its
  candidate is a nearest such entry, at a distance below 1.0.
\<close>

theorem attached_object_in_clamp_band:
  "(distinct (map fst (objects om)) \<longrightarrow> attachedObject om = None \<longrightarrow>
      (attachedObject (pickupPhase a gp om) = Some i
        \<or> attachedObject (updateJoints a gp om) = Some i) \<longrightarrow>
      0 < a \<and> a < 40 \<and>
      (\<exists>obj. getObject om i = Some obj \<and> pickable (userData obj)
         \<and> distanceTo gp (position obj) < 0.3
         \<and> gripperWidthOf a - 0.2 \<le> objSize (geom obj)
         \<and> objSize (geom obj) \<le> gripperWidthOf a + 0.05
         \<and> (\<forall>ty sz. geom obj = makeGeometry ty sz \<and> ty \<noteq> ''cylinder'' \<and> sz \<noteq> 0
              \<longrightarrow> gripperWidthOf a - 0.2 \<le> sz \<and> sz \<le> gripperWidthOf a + 0.05)
         \<and> (\<forall>e\<in>set (objects om). clampable om (gripperWidthOf a) e
              \<longrightarrow> distanceTo gp (position obj) \<le> distanceTo gp (position (snd e)))))
   \<and> (distinct (map fst (objects om)) \<longrightarrow> attachedObject om = None \<longrightarrow>
      (i, obj) \<in> set (objects om) \<longrightarrow> geom obj = makeGeometry ty sz \<longrightarrow>
      ty \<noteq> ''cylinder'' \<longrightarrow> sz \<noteq> 0 \<longrightarrow>
      \<not> (gripperWidthOf a - 0.2 \<le> sz \<and> sz \<le> gripperWidthOf a + 0.05) \<longrightarrow>
      attachedObject (pickupPhase a gp om) \<noteq> Some i
      \<and> attachedObject (updateJoints a gp om) \<noteq> Some i)
   \<and> snd (clampScan om gp w) \<le> 1
   \<and> (fst (clampScan om gp w) = None \<longleftrightarrow>
        (\<forall>e\<in>set (objects om). clampable om w e \<longrightarrow> 1 \<le> distanceTo gp (position (snd e))))
   \<and> (fst (clampScan om gp w) = None \<longrightarrow> snd (clampScan om gp w) = 1)
   \<and> (\<forall>k. fst (clampScan om gp w) = Some k \<longrightarrow>
        (\<exists>m. (k, m) \<in> set (objects om) \<and> clampable om w (k, m)
           \<and> snd (clampScan om gp w) = distanceTo gp (position m)
           \<and> snd (clampScan om gp w) < 1
           \<and> (\<forall>e\<in>set (objects om). clampable om w e
                \<longrightarrow> snd (clampScan om gp w) \<le> distanceTo gp (position (snd e)))))"
proof -
  have A: "0 < a \<and> a < 40 \<and>
      (\<exists>obj. getObject om i = Some obj \<and> pickable (userData obj)
         \<and> distanceTo gp (position obj) < 0.3
         \<and> gripperWidthOf a - 0.2 \<le> objSize (geom obj)
         \<and> objSize (geom obj) \<le> gripperWidthOf a + 0.05
         \<and> (\<forall>ty sz. geom obj = makeGeometry ty sz \<and> ty \<noteq> ''cylinder'' \<and> sz \<noteq> 0
              \<longrightarrow> gripperWidthOf a - 0.2 \<le> sz \<and> sz \<le> gripperWidthOf a + 0.05)
         \<and> (\<forall>e\<in>set (objects om). clampable om (gripperWidthOf a) e
              \<longrightarrow> distanceTo gp (position obj) \<le> distanceTo gp (position (snd e))))"
    if h: "distinct (map fst (objects om))" "attachedObject om = None"
      "attachedObject (pickupPhase a gp om) = Some i
        \<or> attachedObject (updateJoints a gp om) = Some i"
  proof -
    from attached_after_pickup [OF h] obtain obj where a: "0 < a" "a < 40"
      and obj: "getObject om i = Some obj" "clampable om (gripperWidthOf a) (i, obj)"
        "distanceTo gp (position obj) < 0.3"
        "\<forall>e\<in>set (objects om). clampable om (gripperWidthOf a) e
            \<longrightarrow> distanceTo gp (position obj) \<le> distanceTo gp (position (snd e))"
      by blast
    from obj(2) have band: "pickable (userData obj)"
        "gripperWidthOf a - 0.2 \<le> objSize (geom obj)"
        "objSize (geom obj) \<le> gripperWidthOf a + 0.05"
      by (simp_all add: clampable_def)
    have own: "\<forall>ty sz. geom obj = makeGeometry ty sz \<and> ty \<noteq> ''cylinder'' \<and> sz \<noteq> 0
              \<longrightarrow> gripperWidthOf a - 0.2 \<le> sz \<and> sz \<le> gripperWidthOf a + 0.05"
      using band(2,3) by (auto simp add: objSize_makeGeometry)
    from a obj(1,3,4) band own show ?thesis by blast
  qed
  have B: "attachedObject (pickupPhase a gp om) \<noteq> Some i
      \<and> attachedObject (updateJoints a gp om) \<noteq> Some i"
    if h: "distinct (map fst (objects om))" "attachedObject om = None"
      and m: "(i, obj) \<in> set (objects om)" "geom obj = makeGeometry ty sz"
        "ty \<noteq> ''cylinder''" "sz \<noteq> 0"
        "\<not> (gripperWidthOf a - 0.2 \<le> sz \<and> sz \<le> gripperWidthOf a + 0.05)"
  proof (rule ccontr)
    assume "\<not> ?thesis"
    then have "attachedObject (pickupPhase a gp om) = Some i
        \<or> attachedObject (updateJoints a gp om) = Some i"
      by blast
    from A [OF h this] obtain obj' where o: "getObject om i = Some obj'"
      "\<forall>ty sz. geom obj' = makeGeometry ty sz \<and> ty \<noteq> ''cylinder'' \<and> sz \<noteq> 0
              \<longrightarrow> gripperWidthOf a - 0.2 \<le> sz \<and> sz \<le> gripperWidthOf a + 0.05"
      by blast
    have "getObject om i = Some obj" using h(1) m(1) by (simp add: getObject_def)
    with o(1) have "obj' = obj" by simp
    with o(2) m(2-5) show False by blast
  qed
  obtain r d where scan: "clampScan om gp w = (r, d)" by (cases "clampScan om gp w")
  note ch = clampScan_char [OF scan]
  have C: "snd (clampScan om gp w) \<le> 1" using ch by (simp add: scan)
  have D: "fst (clampScan om gp w) = None \<longleftrightarrow>
        (\<forall>e\<in>set (objects om). clampable om w e \<longrightarrow> 1 \<le> distanceTo gp (position (snd e)))"
    using ch unfolding scan by (auto simp add: not_le [symmetric])
  have E: "fst (clampScan om gp w) = None \<longrightarrow> snd (clampScan om gp w) = 1"
    using ch unfolding scan by auto
  have F: "\<forall>k. fst (clampScan om gp w) = Some k \<longrightarrow>
        (\<exists>m. (k, m) \<in> set (objects om) \<and> clampable om w (k, m)
           \<and> snd (clampScan om gp w) = distanceTo gp (position m)
           \<and> snd (clampScan om gp w) < 1
           \<and> (\<forall>e\<in>set (objects om). clampable om w e
                \<longrightarrow> snd (clampScan om gp w) \<le> distanceTo gp (position (snd e))))"
    using ch unfolding scan by auto
  from A B C D E F show ?thesis by blast
qed

text \<open>
  The theorem at a registry with the cube of size 0.3 and a cube of size 0.6, both 0.1 away
  from the gripper centre, with the gripper at 10 degrees (width about 0.30): the small
  cube is attached and its size lies in the band, the large cube is outside the band and
  is not attached.
\<close>

theorem attached_object_in_clamp_band_witness:
  "distinct (map fst (objects nearAndBig)) \<and> attachedObject nearAndBig = None
   \<and> objects nearAndBig = [(1, cubeNearMesh), (2, bigMesh)]
   \<and> geom cubeNearMesh = makeGeometry ''cube'' 0.3
   \<and> geom bigMesh = makeGeometry ''cube'' 0.6
   \<and> attachedObject (updateJoints 10 gripperAt nearAndBig) = Some 1
   \<and> gripperWidthOf 10 - 0.2 \<le> 0.3 \<and> 0.3 \<le> gripperWidthOf 10 + 0.05
   \<and> \<not> (gripperWidthOf 10 - 0.2 \<le> 0.6 \<and> 0.6 \<le> gripperWidthOf 10 + 0.05)
   \<and> attachedObject (updateJoints 10 gripperAt nearAndBig) \<noteq> Some 2
   \<and> fst (clampScan nearAndBig gripperAt (gripperWidthOf 10)) \<noteq> None
   \<and> snd (clampScan nearAndBig gripperAt (gripperWidthOf 10)) < 1"
proof -
  note d = nearAndBig_objects(6) and n = nearAndBig_objects(2)
  have out: "\<not> (gripperWidthOf 10 - 0.2 \<le> 0.6 \<and> 0.6 \<le> gripperWidthOf 10 + 0.05)"
    using width_10 by simp
  have m1: "(1, cubeNearMesh) \<in> set (objects nearAndBig)"
    and m2: "(2, bigMesh) \<in> set (objects nearAndBig)"
    by (simp_all add: nearAndBig_objects(1))
  have g1: "getObject nearAndBig 1 = Some cubeNearMesh"
    using d m1 by (simp add: getObject_def)
  from attached_object_in_clamp_band [where om = nearAndBig and a = 10 and gp = gripperAt and i = 1, THEN conjunct1, rule_format,
      OF d n disjI2, OF nearAndBig_attached]
  obtain obj where o: "getObject nearAndBig 1 = Some obj"
      "\<forall>ty sz. geom obj = makeGeometry ty sz \<and> ty \<noteq> ''cylinder'' \<and> sz \<noteq> 0
         \<longrightarrow> gripperWidthOf 10 - 0.2 \<le> sz \<and> sz \<le> gripperWidthOf 10 + 0.05"
    by blast
  from o(1) g1 have "obj = cubeNearMesh" by simp
  with cubeNearMesh_geom
  have pre: "geom obj = makeGeometry ''cube'' 0.3 \<and> ''cube'' \<noteq> ''cylinder'' \<and> (0.3::real) \<noteq> 0"
    by simp
  from o(2) [rule_format, OF pre]
  have in_band: "gripperWidthOf 10 - 0.2 \<le> 0.3 \<and> 0.3 \<le> gripperWidthOf 10 + 0.05" .
  have "(0.6::real) \<noteq> 0" by simp
  from attached_object_in_clamp_band [where om = nearAndBig and i = 2 and obj = bigMesh and ty = "''cube''" and sz = "0.6"
        and a = 10 and gp = gripperAt,
      THEN conjunct2, THEN conjunct1, rule_format,
      OF d n m2 nearAndBig_objects(3) _ this out]
  have not2: "attachedObject (updateJoints 10 gripperAt nearAndBig) \<noteq> Some 2"
    by simp
  obtain r dd where scan: "clampScan nearAndBig gripperAt (gripperWidthOf 10) = (r, dd)"
    by (cases "clampScan nearAndBig gripperAt (gripperWidthOf 10)")
  with nearAndBig_clamped have "r \<noteq> None" "dd < 1"
    by (auto simp add: checkClamping_def split: option.splits if_splits)
  with scan have sc: "fst (clampScan nearAndBig gripperAt (gripperWidthOf 10)) \<noteq> None"
      "snd (clampScan nearAndBig gripperAt (gripperWidthOf 10)) < 1"
    by simp_all
  from in_band out have bands: "gripperWidthOf 10 - 0.2 \<le> 0.3" "0.3 \<le> gripperWidthOf 10 + 0.05"
      "\<not> (gripperWidthOf 10 - 0.2 \<le> 0.6 \<and> 0.6 \<le> gripperWidthOf 10 + 0.05)"
    by blast+
  show ?thesis
    by (intro conjI d n nearAndBig_objects(1,3) cubeNearMesh_geom nearAndBig_attached bands
        not2 sc)
qed

text \<open>
  Claim C1 as the specification words it does not hold.  A pickable sphere of size 0.2,
  0.1 away from the gripper centre, with the gripper at 10 degrees (width about 0.30): its
  size is below \<open>gripperWidth - 0.05\<close>, outside the band \<open>[gripperWidth - 0.05,
  gripperWidth + 0.2]\<close>, and it is attached after the update.
\<close>

theorem small_sphere_attached_outside_claimed_band:
  "attachedObject sphereScene = None \<and> (0::real) < 10 \<and> (10::real) < 40
   \<and> objects sphereScene = [(1, sphereMesh)]
   \<and> pickable (userData sphereMesh)
   \<and> objSize (geom sphereMesh) < gripperWidthOf 10 - 0.05
   \<and> attachedObject (updateJoints 10 gripperAt sphereScene) = Some 1"
proof -
  have "objects sphereScene = [(1, sphereMesh)]"
    by (rule sphereScene_objects(1))
  moreover have "objSize (geom sphereMesh) < gripperWidthOf 10 - 0.05"
    using width_10 by (simp add: sphereScene_objects)
  moreover have "attachedObject (updateJoints 10 gripperAt sphereScene) = Some 1"
    by (simp add: sphere_attached_at_10 updateAttachedObject_attached attachToGripper_def)
  ultimately show ?thesis by (simp add: sphereScene_objects)
qed

text \<open>
  Claim C2, as the code has it, for every registry (with distinct ids) in which nothing is
  attached.  Take a pickable entry built with size 0.3, as \<open>spawnObject\<close> builds it (no
  \<open>size\<close> in its user data).  With the gripper at 20 degrees: if the entry is closer than
  0.3 to the gripper centre (as at distance 0.1) and every other entry that passes the
  tests of the scan is farther away than it, the pickup test attaches it, and the release
  test of the same call drops it again, because the gripper width at 20 degrees is above
  0.3 + 0.1; nothing is attached when the update returns.  If the entry is at distance 0.3
  or more (as at distance 0.5), no joint update attaches it, at any gripper angle.
\<close>

theorem grasp_at_20_degrees:
  "distinct (map fst (objects om)) \<longrightarrow> attachedObject om = None \<longrightarrow>
   (i, obj) \<in> set (objects om) \<longrightarrow>
     (pickable (userData obj) \<and> geom obj = makeGeometry ty 0.3
        \<and> usize (userData obj) = None
        \<and> distanceTo gp (position obj) < 0.3
        \<and> (\<forall>e\<in>set (objects om). fst e \<noteq> i \<and> clampable om (gripperWidthOf 20) e
              \<longrightarrow> distanceTo gp (position obj) < distanceTo gp (position (snd e)))
      \<longrightarrow> checkClamping om gp (gripperWidthOf 20) = Some i
        \<and> attachedObject (pickupPhase 20 gp om) = Some i
        \<and> attachedObject (updateJoints 20 gp om) = None)
     \<and> (0.3 \<le> distanceTo gp (position obj)
      \<longrightarrow> attachedObject (pickupPhase a gp om) \<noteq> Some i
        \<and> attachedObject (updateJoints a gp om) \<noteq> Some i)"
proof (intro impI conjI)
  assume h: "distinct (map fst (objects om))" "attachedObject om = None"
    "(i, obj) \<in> set (objects om)"
  {
    assume n: "pickable (userData obj) \<and> geom obj = makeGeometry ty 0.3
        \<and> usize (userData obj) = None
        \<and> distanceTo gp (position obj) < 0.3
        \<and> (\<forall>e\<in>set (objects om). fst e \<noteq> i \<and> clampable om (gripperWidthOf 20) e
              \<longrightarrow> distanceTo gp (position obj) < distanceTo gp (position (snd e)))"
    from n have pk: "pickable (userData obj)" by simp
    from n have "geom obj = makeGeometry ty 0.3" by simp
    then have sz: "objSize (geom obj) = 3 / 10" by (simp add: objSize_makeGeometry)
    have cl: "clampable om (gripperWidthOf 20) (i, obj)"
      using pk h(2) width_20 by (simp add: clampable_def sz)
    have c: "checkClamping om gp (gripperWidthOf 20) = Some i"
      using n by (intro closest_clampable_is_clamped [OF h(1,3) cl]) simp_all
    have u: "usize (userData obj) = None" using n by simp
    show "checkClamping om gp (gripperWidthOf 20) = Some i" by (rule c)
    show "attachedObject (pickupPhase 20 gp om) = Some i"
      by (rule released_in_same_update(1) [OF h(1,3) u h(2) _ _ width_20(1) c]) simp_all
    show "attachedObject (updateJoints 20 gp om) = None"
      by (rule released_in_same_update(2) [OF h(1,3) u h(2) _ _ width_20(1) c]) simp_all
  }
  {
    assume f: "0.3 \<le> distanceTo gp (position obj)"
    have g: "getObject om i = Some obj" using h(1,3) by (simp add: getObject_def)
    have no: "\<not> (attachedObject (pickupPhase a gp om) = Some i
        \<or> attachedObject (updateJoints a gp om) = Some i)"
    proof
      assume "attachedObject (pickupPhase a gp om) = Some i
        \<or> attachedObject (updateJoints a gp om) = Some i"
      from attached_after_pickup [OF h(1,2) this] g f show False by auto
    qed
    from no show "attachedObject (pickupPhase a gp om) \<noteq> Some i" by blast
    from no show "attachedObject (updateJoints a gp om) \<noteq> Some i" by blast
  }
qed


text \<open>
  The theorem at a registry with two cubes of size 0.3, one 0.1 and one 0.5 away from the
  gripper centre.
\<close>

theorem grasp_at_20_degrees_witness:
  "distinct (map fst (objects twoCubes)) \<and> attachedObject twoCubes = None
   \<and> objects twoCubes = [(1, cubeNearMesh), (2, twoCubesFarMesh)]
   \<and> pickable (userData cubeNearMesh) \<and> geom cubeNearMesh = makeGeometry ''cube'' 0.3
   \<and> usize (userData cubeNearMesh) = None
   \<and> distanceTo gripperAt (position cubeNearMesh) = 1 / 10
   \<and> distanceTo gripperAt (position twoCubesFarMesh) = 1 / 2
   \<and> attachedObject (pickupPhase 20 gripperAt twoCubes) = Some 1
   \<and> attachedObject (updateJoints 20 gripperAt twoCubes) = None
   \<and> attachedObject (pickupPhase 20 gripperAt twoCubes) \<noteq> Some 2
   \<and> attachedObject (updateJoints 20 gripperAt twoCubes) \<noteq> Some 2"
proof -
  note d = twoCubes_objects(6) and n = twoCubes_objects(2)
  have m1: "(1, cubeNearMesh) \<in> set (objects twoCubes)"
    and m2: "(2, twoCubesFarMesh) \<in> set (objects twoCubes)"
    by (simp_all add: twoCubes_objects(1))
  have d1: "distanceTo gripperAt (position cubeNearMesh) = 1 / 10"
    and d2: "distanceTo gripperAt (position twoCubesFarMesh) = 1 / 2"
    by (simp_all add: cubeNear_objects(5) twoCubes_objects(4) dist_near dist_far)
  have near: "pickable (userData cubeNearMesh) \<and> geom cubeNearMesh = makeGeometry ''cube'' 0.3
        \<and> usize (userData cubeNearMesh) = None
        \<and> distanceTo gripperAt (position cubeNearMesh) < 0.3
        \<and> (\<forall>e\<in>set (objects twoCubes). fst e \<noteq> 1 \<and> clampable twoCubes (gripperWidthOf 20) e
              \<longrightarrow> distanceTo gripperAt (position cubeNearMesh)
                < distanceTo gripperAt (position (snd e)))"
    using cubeNear_objects(3,4) cubeNearMesh_geom
    by (simp add: d1 d2 twoCubes_objects(1))
  have far: "0.3 \<le> distanceTo gripperAt (position twoCubesFarMesh)"
    by (simp add: d2)
  note t1 = grasp_at_20_degrees [where om = twoCubes and i = 1 and obj = cubeNearMesh and ty = "''cube''"
      and gp = gripperAt and a = 20, rule_format, OF d n m1,
      THEN conjunct1, rule_format, OF near]
  note t2 = grasp_at_20_degrees [where om = twoCubes and i = 2 and obj = twoCubesFarMesh and ty = "''cube''"
      and gp = gripperAt and a = 20, rule_format, OF d n m2,
      THEN conjunct2, rule_format, OF far]
  from t1 have t1': "attachedObject (pickupPhase 20 gripperAt twoCubes) = Some 1"
      "attachedObject (updateJoints 20 gripperAt twoCubes) = None"
    by blast+
  from t2 have t2': "attachedObject (pickupPhase 20 gripperAt twoCubes) \<noteq> Some 2"
      "attachedObject (updateJoints 20 gripperAt twoCubes) \<noteq> Some 2"
    by blast+
  show ?thesis
    by (intro conjI d n twoCubes_objects(1) cubeNear_objects(3,4) cubeNearMesh_geom d1 d2 t1' t2')
qed


text \<open>
  Claim C2 as the specification words it does not hold: the cube of size 0.3 at distance
  0.1 is not attached after one joint update at 20 degrees.
\<close>

theorem cube_not_attached_after_update_at_20:
  "attachedObject cubeNear = None
   \<and> objects cubeNear = [(1, cubeNearMesh)]
   \<and> pickable (userData cubeNearMesh)
   \<and> objSize (geom cubeNearMesh) = 0.3
   \<and> distanceTo gripperAt (position cubeNearMesh) = 0.1
   \<and> attachedObject (updateJoints 20 gripperAt cubeNear) \<noteq> Some 1"
proof -
  have "attachedObject (updateJoints 20 gripperAt cubeNear) = None"
    using width_20
      single_update [OF cubeNear_objects(1,2,3) _ _ _ _ cubeNear_objects(4), of 20 gripperAt]
    by (simp add: cubeNear_objects)
  moreover have "objects cubeNear = [(1, cubeNearMesh)]"
    by (rule cubeNear_objects(1))
  ultimately show ?thesis
    by (simp add: cubeNear_objects(2-6) dist_near)
qed

text \<open>
  Claim C3 at a sphere of size 0.2 that the gripper holds.  At 12 degrees the gripper width
  (about 0.33) exceeds the size of the sphere plus 0.1, and the sphere stays attached:
  \<open>updateJoints\<close> reads \<open>userData.size\<close>, which \<open>spawnObject\<close> never sets, so the release
  test compares the width with 0.3 + 0.1 for every object.
\<close>

theorem held_sphere_not_released_past_its_size:
  "attachedObject heldSphere = Some 1
   \<and> objects heldSphere = [(1, heldMesh)]
   \<and> objSize (geom heldMesh) = 0.2
   \<and> 0.2 + 0.1 < gripperWidthOf 12
   \<and> attachedObject (updateJoints 12 gripperAt heldSphere) = Some 1"
proof -
  have a: "attachedObject heldSphere = Some 1"
    by (simp add: heldSphere_def sphere_attached_at_10 updateAttachedObject_attached
        attachToGripper_def)
  have "attachedObject (updateJoints 12 gripperAt heldSphere) = Some 1"
    using single_release [OF heldSphere_objects(1,2) a, of 12 gripperAt] width_12 by simp
  moreover have "objects heldSphere = [(1, heldMesh)]" by (rule heldSphere_objects(1))
  ultimately show ?thesis using a width_12 by (simp add: heldSphere_objects(3))
qed

section \<open>Claims about the physics step\<close>

text \<open>
  Claim C4.  For every registry, every list of arm colliders and every elapsed time of at
  least 0.05, one physics update gives the same registry as one update with elapsed time
  0.05; so does the update with elapsed time 1.0.
\<close>

theorem update_clamps_dt:
  "(0.05 \<le> dt \<longrightarrow> update dt armColliders om = update 0.05 armColliders om)
    \<and> update 1.0 armColliders om = update 0.05 armColliders om"
proof -
  have gen: "update d armColliders om = update 0.05 armColliders om" if "0.05 \<le> d" for d
  proof -
    have "min d 0.05 = min 0.05 (0.05::real)" using that by simp
    then show ?thesis unfolding update_def by (simp only:)
  qed
  have "(0.05::real) \<le> 1.0" by simp
  from gen [OF this] gen show ?thesis by blast
qed

theorem update_clamps_dt_witness:
  "(0.05::real) \<le> 0.2
   \<and> update 0.2 [armSphere] cubeNear = update 0.05 [armSphere] cubeNear
   \<and> update 1.0 [armSphere] cubeNear = update 0.05 [armSphere] cubeNear"
proof -
  have "(0.05::real) \<le> 0.2" by simp
  with update_clamps_dt [of "0.2" "[armSphere]" cubeNear] show ?thesis by blast
qed

text \<open>
  Claim C5.  An entry of the registry that is not attached and not static, whose height
  equals its radius and whose velocity is zero, still has a height equal to its radius
  after any number of physics updates without arm colliders, whatever the elapsed times.
\<close>

theorem resting_object_stays_on_floor:
  assumes "k < length (objects om)" and "objects om ! k = (i, obj)"
    and "attachedObject om \<noteq> Some i" and "\<not> isStatic (userData obj)"
    and "vy (position obj) = radius (userData obj)"
    and "velocity (userData obj) = Vector3 0 0 0"
  shows "\<exists>obj'. objects (updates dts [] om) ! k = (i, obj')
      \<and> radius (userData obj') = radius (userData obj)
      \<and> vy (position obj') = radius (userData obj')"
  using updates_rest [OF assms(1-4), of dts] assms(5,6) by (auto simp add: atRest_def)

theorem resting_object_stays_on_floor_witness:
  "0 < length (objects cubeNear) \<and> objects cubeNear ! 0 = (1, cubeNearMesh)
   \<and> attachedObject cubeNear \<noteq> Some 1 \<and> \<not> isStatic (userData cubeNearMesh)
   \<and> vy (position cubeNearMesh) = radius (userData cubeNearMesh)
   \<and> velocity (userData cubeNearMesh) = Vector3 0 0 0
   \<and> (\<exists>obj'. objects (updates [0.016, 0.016, 1.0] [] cubeNear) ! 0 = (1, obj')
      \<and> radius (userData obj') = radius (userData cubeNearMesh)
      \<and> vy (position obj') = radius (userData obj'))"
proof -
  have h: "0 < length (objects cubeNear)" "objects cubeNear ! 0 = (1, cubeNearMesh)"
      "attachedObject cubeNear \<noteq> Some 1"
    by (simp_all add: cubeNear_objects)
  from resting_object_stays_on_floor [OF h cubeNear_atRest, of "[0.016, 0.016, 1.0]"] h
  show ?thesis
    using cubeNear_atRest by blast
qed

text \<open>
  Claim C10.  After a physics update, with any elapsed time and any arm colliders, every
  entry of the registry that is not attached and not static has a height of at least its
  radius.
\<close>

theorem update_keeps_objects_above_floor:
  assumes "(i, obj) \<in> set (objects (update dt armColliders om))"
    and "attachedObject (update dt armColliders om) \<noteq> Some i"
    and "\<not> isStatic (userData obj)"
  shows "radius (userData obj) \<le> vy (position obj)"
proof -
  from assms(1) obtain e where e: "e \<in> set (objects om)"
      and eq: "(i, obj) = updateEntry om (min dt 0.05) armColliders e"
    by (auto simp add: update_def Let_def)
  obtain j obj0 where e_def: "e = (j, obj0)" by (cases e)
  have ji: "j = i"
    using eq e_def updateEntry_fst [of om "min dt 0.05" armColliders e] by (metis fst_conv)
  have na: "attachedObject om \<noteq> Some i" using assms(2) by (simp add: update_attachedObject)
  let ?m = "integrate (min dt 0.05) obj0"
  show ?thesis
  proof (cases "isStatic (userData obj0)")
    case True
    then have "obj = obj0" using eq e_def ji na by (simp add: updateEntry_def)
    with True assms(3) show ?thesis by simp
  next
    case False
    then have obj: "obj = armCollisions armColliders ?m"
      using eq e_def ji na by (simp add: updateEntry_def)
    have "radius (userData obj) = radius (userData obj0)"
      using armCollisions_props [of armColliders ?m] by (simp add: obj integrate_radius)
    also have "\<dots> \<le> vy (position ?m)" by (rule integrate_floor)
    also have "\<dots> \<le> vy (position obj)"
      using armCollisions_props [of armColliders ?m] by (simp add: obj)
    finally show ?thesis .
  qed
qed

text \<open>The theorem at the resting cube, with an arm collider that overlaps it from below.\<close>

theorem update_keeps_objects_above_floor_witness:
  "(1, pushedMesh) \<in> set (objects (update 0.016 [armSphere] cubeNear))
   \<and> attachedObject (update 0.016 [armSphere] cubeNear) \<noteq> Some 1
   \<and> \<not> isStatic (userData pushedMesh)
   \<and> radius (userData pushedMesh) \<le> vy (position pushedMesh)"
proof -
  have o: "objects (update 0.016 [armSphere] cubeNear)
      = [updateEntry cubeNear (min 0.016 0.05) [armSphere] (1, cubeNearMesh)]"
    by (simp add: update_def Let_def cubeNear_objects(1))
  have m: "(1, pushedMesh) \<in> set (objects (update 0.016 [armSphere] cubeNear))"
    unfolding pushedMesh_def pushedScene_def o
    using updateEntry_fst [of cubeNear "min 0.016 0.05" "[armSphere]" "(1, cubeNearMesh)"]
    by (cases "updateEntry cubeNear (min 0.016 0.05) [armSphere] (1, cubeNearMesh)") simp
  have a: "attachedObject (update 0.016 [armSphere] cubeNear) \<noteq> Some 1"
    by (simp add: update_attachedObject cubeNear_objects(2))
  have s: "\<not> isStatic (userData pushedMesh)"
    unfolding pushedMesh_def pushedScene_def o
    using armCollisions_props [of "[armSphere]" "integrate (min 0.016 0.05) cubeNearMesh"]
    by (simp add: updateEntry_def cubeNear_objects(2) cubeNear_atRest(1) integrate_static)
  from update_keeps_objects_above_floor [OF m a s] m a s show ?thesis by blast
qed

section \<open>Levels and progress: helper lemmas\<close>

lemma dist_self: "distanceTo p p = 0"
  by (simp add: distanceTo_def vlength_def subVectors_def)

lemma dist_along_y: "distanceTo (Vector3 a b c) (Vector3 a (b + d) c) = \<bar>d\<bar>"
  by (simp add: distanceTo_def vlength_def subVectors_def Vector3_def)

lemma cubeOnTarget_objects:
  "objects cubeOnTarget = [(1, cubeOnTargetMesh)]"
  "position cubeOnTargetMesh = Vector3 (- 1.5) 0.15 (- 1)"
  "otype (userData cubeOnTargetMesh) = ''cube''"
  "uid (userData cubeOnTargetMesh) = 1"
  by (simp_all add: cubeOnTargetMesh_def cubeOnTarget_def spawnObject_def ObjectManager_new_def Let_def)

lemma cubeOnStack_objects:
  "objects cubeOnStack = [(1, cubeOnStackMesh)]"
  "position cubeOnStackMesh = Vector3 (- 2) 0.15 0"
  "otype (userData cubeOnStackMesh) = ''cube''"
  "uid (userData cubeOnStackMesh) = 1"
  by (simp_all add: cubeOnStackMesh_def cubeOnStack_def spawnObject_def ObjectManager_new_def Let_def)

lemma level1_targets:
  "targets level1Manager =
    [\<lparr>tposition = Vector3 (- 1.5) 0.15 (- 1), tsize = 0.5, accepts = Some [''cube''],
      requiredColor = None, filled = False, tobject = None\<rparr>]"
  by (simp add: level1Manager_def startedLevel_def createTarget_def)

lemma level6_targets:
  "targets level6Manager =
    [\<lparr>tposition = Vector3 (- 2) 0.15 0, tsize = 0.5, accepts = Some [''cube''],
      requiredColor = None, filled = False, tobject = None\<rparr>,
     \<lparr>tposition = Vector3 (- 2) (0.15 + 0.3) 0, tsize = 0.5, accepts = Some [''cube''],
      requiredColor = None, filled = False, tobject = None\<rparr>,
     \<lparr>tposition = Vector3 (- 2) (0.15 + 0.6) 0, tsize = 0.5, accepts = Some [''cube''],
      requiredColor = None, filled = False, tobject = None\<rparr>]"
  by (simp add: level6Manager_def startedLevel_def createTarget_def)

lemma matchesTarget_plain:
  "matchesTarget obj \<lparr>tposition = p, tsize = sz, accepts = Some acc, requiredColor = None,
      filled = f, tobject = ob\<rparr>
    \<longleftrightarrow> distanceTo (position obj) p < sz \<and> otype (userData obj) \<in> set acc"
  by (simp add: matchesTarget_def)

lemma cube_fills_level1: "list_all (matchesTarget cubeOnTargetMesh) (targets level1Manager)"
  unfolding level1_targets
  by (simp add: matchesTarget_plain cubeOnTarget_objects dist_self)

lemma cubeOnStack_matches:
  "matchesTarget cubeOnStackMesh (targets level6Manager ! 0)"
  "matchesTarget cubeOnStackMesh (targets level6Manager ! 1)"
  unfolding level6_targets
  by (simp_all only: nth_Cons_0 nth_Cons_Suc One_nat_def matchesTarget_plain cubeOnStack_objects
      dist_self dist_along_y) simp_all

lemma calculateStars_range: "calculateStars lm \<in> {1, 2, 3}"
  by (simp add: calculateStars_def split: option.splits)

lemma level1_at:
  "currentLevel (level1Manager\<lparr>elapsedTime := e\<rparr>) = Some level1"
  "stars level1 = Some \<lparr>time = Some [60, 90, 120]\<rparr>"
  "time \<lparr>time = Some [60, 90, 120]\<rparr> = Some [60, 90, 120]"
  "elapsedTime (level1Manager\<lparr>elapsedTime := e\<rparr>) = e"
  by (simp_all add: level1Manager_def level1_def createTarget_def startedLevel_def)

lemma matchesTarget_resetState: "matchesTarget obj (resetState t) = matchesTarget obj t"
  by (simp add: matchesTarget_def resetState_def split: option.splits)

lemma filled_resetState: "filled (resetState t) = False"
  by (simp add: resetState_def)

lemma fillFirst_count:
  "length (filter filled (fillFirst obj ts)) \<le> Suc (length (filter filled ts))"
  by (induction ts) auto

lemma foldl_fillFirst_count:
  "length (filter filled (foldl (\<lambda>ts obj. fillFirst obj ts) ts objs))
    \<le> length (filter filled ts) + length objs"
proof (induction objs arbitrary: ts)
  case Nil
  show ?case by simp
next
  case (Cons obj objs)
  have "length (filter filled (foldl (\<lambda>ts obj. fillFirst obj ts) (fillFirst obj ts) objs))
      \<le> length (filter filled (fillFirst obj ts)) + length objs"
    by (rule Cons.IH)
  also have "\<dots> \<le> Suc (length (filter filled ts)) + length objs"
    using fillFirst_count [of obj ts] by simp
  finally show ?case by simp
qed

lemma filter_filled_reset: "filter filled (map resetState ts) = []"
  by (induction ts) (simp_all add: filled_resetState)

text \<open>
  The scan of one object fills the first target it matches, wherever that target is in
  the list, and changes nothing when it matches none.  The ids recorded in the target
  states stay pairwise different while objects with different ids are scanned.
\<close>

lemma fillFirst_first_match:
  assumes "\<forall>p\<in>set pre. \<not> matchesTarget obj p" and "matchesTarget obj t"
  shows "fillFirst obj (pre @ t # post)
    = pre @ t\<lparr>filled := True, tobject := Some (uid (userData obj))\<rparr> # post"
  using assms by (induction pre) simp_all

lemma fillFirst_no_match:
  assumes "\<forall>p\<in>set ts. \<not> matchesTarget obj p"
  shows "fillFirst obj ts = ts"
  using assms by (induction ts) simp_all

lemma fillFirst_fillers_subset:
  "set (List.map_filter tobject (fillFirst obj ts))
    \<subseteq> insert (uid (userData obj)) (set (List.map_filter tobject ts))"
  by (induction ts) (auto split: option.splits)

lemma fillFirst_fillers_distinct:
  assumes "distinct (List.map_filter tobject ts)"
    and "uid (userData obj) \<notin> set (List.map_filter tobject ts)"
  shows "distinct (List.map_filter tobject (fillFirst obj ts))"
  using assms
proof (induction ts)
  case Nil
  show ?case by simp
next
  case (Cons t ts)
  show ?case
  proof (cases "matchesTarget obj t")
    case True
    with Cons.prems show ?thesis by (auto split: option.splits)
  next
    case False
    show ?thesis
    proof (cases "tobject t")
      case None
      with False Cons show ?thesis by simp
    next
      case (Some v)
      with Cons.prems have v: "v \<noteq> uid (userData obj)" "v \<notin> set (List.map_filter tobject ts)"
          "distinct (List.map_filter tobject ts)"
          "uid (userData obj) \<notin> set (List.map_filter tobject ts)"
        by auto
      from v(1,2) fillFirst_fillers_subset [of obj ts]
      have "v \<notin> set (List.map_filter tobject (fillFirst obj ts))" by auto
      with False Some Cons.IH [OF v(3,4)] show ?thesis by simp
    qed
  qed
qed

lemma foldl_fillFirst_fillers:
  assumes "distinct (map (\<lambda>m. uid (userData m)) objs)"
    and "distinct (List.map_filter tobject ts)"
    and "set (List.map_filter tobject ts) \<inter> (\<lambda>m. uid (userData m)) ` set objs = {}"
  shows "distinct (List.map_filter tobject (foldl (\<lambda>ts obj. fillFirst obj ts) ts objs))
    \<and> set (List.map_filter tobject (foldl (\<lambda>ts obj. fillFirst obj ts) ts objs))
        \<subseteq> set (List.map_filter tobject ts) \<union> (\<lambda>m. uid (userData m)) ` set objs"
  using assms
proof (induction objs arbitrary: ts)
  case Nil
  then show ?case by simp
next
  case (Cons obj objs)
  let ?ts = "fillFirst obj ts"
  have u: "uid (userData obj) \<notin> set (List.map_filter tobject ts)"
    using Cons.prems(3) by auto
  have d: "distinct (List.map_filter tobject ?ts)"
    using Cons.prems(2) u by (rule fillFirst_fillers_distinct)
  have s: "set (List.map_filter tobject ?ts)
      \<subseteq> insert (uid (userData obj)) (set (List.map_filter tobject ts))"
    by (rule fillFirst_fillers_subset)
  have i: "set (List.map_filter tobject ?ts) \<inter> (\<lambda>m. uid (userData m)) ` set objs = {}"
  proof (rule ccontr)
    assume "\<not> ?thesis"
    then obtain v where v: "v \<in> set (List.map_filter tobject ?ts)"
        "v \<in> (\<lambda>m. uid (userData m)) ` set objs"
      by blast
    from v(1) s have "v = uid (userData obj) \<or> v \<in> set (List.map_filter tobject ts)" by blast
    then show False
    proof
      assume "v = uid (userData obj)"
      with v(2) Cons.prems(1) show False by simp
    next
      assume "v \<in> set (List.map_filter tobject ts)"
      with v(2) Cons.prems(3) show False by auto
    qed
  qed
  have d2: "distinct (map (\<lambda>m. uid (userData m)) objs)"
    using Cons.prems(1) by simp
  from Cons.IH [OF d2 d i] s show ?case by auto
qed

lemma fillers_reset: "List.map_filter tobject (map resetState ts) = []"
  by (induction ts) (simp_all add: resetState_def)

lemma fillFirst_filled_iff:
  assumes "\<forall>t\<in>set ts. filled t \<longleftrightarrow> tobject t \<noteq> None"
  shows "\<forall>t\<in>set (fillFirst obj ts). filled t \<longleftrightarrow> tobject t \<noteq> None"
  using assms by (induction ts) auto

lemma foldl_fillFirst_filled_iff:
  assumes "\<forall>t\<in>set ts. filled t \<longleftrightarrow> tobject t \<noteq> None"
  shows "\<forall>t\<in>set (foldl (\<lambda>ts obj. fillFirst obj ts) ts objs). filled t \<longleftrightarrow> tobject t \<noteq> None"
  using assms
proof (induction objs arbitrary: ts)
  case Nil
  then show ?case by simp
next
  case (Cons obj objs)
  from Cons.IH [OF fillFirst_filled_iff [OF Cons.prems]] show ?case by simp
qed

lemma dist_down_y: "distanceTo (Vector3 a (b + d) c) (Vector3 a b c) = \<bar>d\<bar>"
  by (simp add: distanceTo_def vlength_def subVectors_def Vector3_def)

lemma dist_between_y: "distanceTo (Vector3 a (b + d) c) (Vector3 a (b + e) c) = \<bar>d - e\<bar>"
  by (simp add: distanceTo_def vlength_def subVectors_def Vector3_def)

lemma cubeOnTop_objects:
  "objects cubeOnTop = [(1, cubeOnTopMesh)]"
  "position cubeOnTopMesh = Vector3 (- 2) (0.15 + 0.6) 0"
  "otype (userData cubeOnTopMesh) = ''cube''"
  "uid (userData cubeOnTopMesh) = 1"
  by (simp_all add: cubeOnTopMesh_def cubeOnTop_def spawnObject_def ObjectManager_new_def Let_def)

lemma cubeOnTop_matches:
  "\<not> matchesTarget cubeOnTopMesh (targets level6Manager ! 0)"
  "matchesTarget cubeOnTopMesh (targets level6Manager ! 1)"
  "matchesTarget cubeOnTopMesh (targets level6Manager ! 2)"
  unfolding level6_targets
  by (simp_all only: nth_Cons_0 nth_Cons_Suc One_nat_def numeral_2_eq_2 matchesTarget_plain
      cubeOnTop_objects dist_self dist_down_y dist_between_y) simp_all

lemma level6_split:
  "targets level6Manager
    = [targets level6Manager ! 0] @ targets level6Manager ! 1 # [targets level6Manager ! 2]"
  by (simp add: level6_targets)

lemma stackOfTwo_uids: "map (\<lambda>m. uid (userData m)) (getAllObjects stackOfTwo) = [1, 2]"
  by (simp add: getAllObjects_def stackOfTwo_def spawnObject_def Let_def cubeOnStack_objects(1,4))
    (simp add: cubeOnStack_def spawnObject_def ObjectManager_new_def Let_def)

text \<open>
  The store.  With a writable \<open>localStorage\<close>, what \<open>saveProgress\<close> returns is what the
  next \<open>loadProgress\<close> reads.  For a level with a stored value that is not 0, the stars only
  go up and the best time only goes down; a missing value and a stored 0 are both replaced.
\<close>

lemma loadAll_saved:
  "\<not> setItemThrows ls \<Longrightarrow> loadAll (snd (saveAll data ls)) = data\<lparr>version := storageVersion\<rparr>"
  by (simp add: saveAll_def loadAll_def)

lemma loadProgress_saveProgress:
  "\<not> setItemThrows ls \<Longrightarrow> loadProgress (snd (saveProgress l s t ls)) = fst (saveProgress l s t ls)"
  by (simp add: saveProgress_def loadProgress_def Let_def loadAll_saved)

lemma saveProgress_writable:
  "setItemThrows (snd (saveProgress l s t ls)) = setItemThrows ls"
  by (simp add: saveProgress_def saveAll_def Let_def)

lemma saveProgress_levelStars:
  "levelStars (fst (saveProgress l s t ls)) l =
    Some (case levelStars (loadProgress ls) l of
            None \<Rightarrow> s
          | Some s0 \<Rightarrow> if s0 = 0 \<or> s0 < s then s else s0)"
  by (simp add: saveProgress_def saveProgressData_def loadProgress_def Let_def falsy_def js_less_def
      split: option.splits)

lemma saveProgress_levelBestTimes:
  "levelBestTimes (fst (saveProgress l s t ls)) l =
    Some (case levelBestTimes (loadProgress ls) l of
            None \<Rightarrow> t
          | Some t0 \<Rightarrow> if t0 = 0 \<or> t < t0 then t else t0)"
  by (simp add: saveProgress_def saveProgressData_def loadProgress_def Let_def falsy_def
      js_greater_def split: option.splits)

lemma saveProgress_twice_stars:
  assumes "\<not> setItemThrows ls" and "levelStars (loadProgress ls) l = None"
  shows "levelStars (loadProgress (snd (saveProgress l 1 t2 (snd (saveProgress l 2 t1 ls))))) l
    = Some 2"
proof -
  let ?ls1 = "snd (saveProgress l 2 t1 ls)"
  have w: "\<not> setItemThrows ?ls1"
    using assms(1) by (simp add: saveProgress_writable)
  have "levelStars (loadProgress ?ls1) l = Some 2"
    using assms by (simp add: loadProgress_saveProgress saveProgress_levelStars)
  then show ?thesis
    using w by (simp add: loadProgress_saveProgress saveProgress_levelStars)
qed

lemma saveProgress_slower_time:
  assumes "\<not> setItemThrows ls" and "levelBestTimes (loadProgress ls) l = Some t0"
    and "t0 \<noteq> 0" and "t0 \<le> t"
  shows "levelBestTimes (loadProgress (snd (saveProgress l s t ls))) l = Some t0"
  using assms by (simp add: loadProgress_saveProgress saveProgress_levelBestTimes)

lemma storeAfterFirst_time: "levelBestTimes (loadProgress storeAfterFirst) 1 = Some 0"
proof -
  have "\<not> setItemThrows emptyStore" by (simp add: emptyStore_def)
  then have "loadProgress storeAfterFirst = fst (saveProgress 1 3 0 emptyStore)"
    unfolding storeAfterFirst_def by (rule loadProgress_saveProgress)
  moreover have "levelBestTimes (loadProgress emptyStore) 1 = None"
    by (simp add: loadProgress_def loadAll_def emptyStore_def getDefaultData_def)
  ultimately show ?thesis
    by (simp add: saveProgress_levelBestTimes)
qed

section \<open>Claims about levels and progress\<close>

text \<open>
  Claim C6.  When the manager is active and the current level has a time limit (the test
  \<open>this.currentLevel.timeLimit &&\<close> of the source: the field is a number other than 0; in the
  level table it is \<open>null\<close> or a positive number), and the elapsed time computed by this
  call exceeds the limit, \<open>update\<close> returns \<open>{status: 'failed', reason: 'timeout'}\<close>,
  whatever the objects and targets are, and so never reports the level as completed.
\<close>

theorem timeout_precedes_win:
  assumes "isActive lm" and "currentLevel lm = Some lvl"
    and "timeLimit lvl = Some T" and "T \<noteq> 0"
    and "T < (now - levelStartTime lm) / 1000"
  shows "fst (levelUpdate now om lm) = Some (Failed ''timeout'')
    \<and> (\<forall>t s. fst (levelUpdate now om lm) \<noteq> Some (Completed t s))"
  using assms by (simp add: levelUpdate_def Let_def falsy_def js_less_def)

text \<open>
  The theorem at level 1 (time limit 120 seconds), 121 seconds after the start, with the
  cube lying on the only target: every target would be filled in this frame.
\<close>

theorem timeout_precedes_win_witness:
  "isActive level1Manager \<and> currentLevel level1Manager = Some level1
   \<and> timeLimit level1 = Some 120 \<and> (120::real) \<noteq> 0
   \<and> (120::real) < (121000 - levelStartTime level1Manager) / 1000
   \<and> list_all (matchesTarget cubeOnTargetMesh) (targets level1Manager)
   \<and> fst (levelUpdate 121000 cubeOnTarget level1Manager) = Some (Failed ''timeout'')"
proof -
  have h: "isActive level1Manager" "currentLevel level1Manager = Some level1"
      "timeLimit level1 = Some 120" "(120::real) \<noteq> 0"
      "(120::real) < (121000 - levelStartTime level1Manager) / 1000"
    by (simp_all add: level1Manager_def level1_def createTarget_def startedLevel_def)
  from timeout_precedes_win [OF h, of cubeOnTarget] h cube_fills_level1 show ?thesis by blast
qed

text \<open>
  Claim C7.  For a level with ascending star thresholds \<open>[t0, t1, t2]\<close> the star count is 3
  up to \<open>t0\<close>, 2 above \<open>t0\<close> up to \<open>t1\<close>, and 1 above \<open>t1\<close>, also above \<open>t2\<close>.  For every
  state of the manager the star count is 1, 2 or 3, and so is the star count of every
  frame result \<open>completed\<close>.
\<close>

theorem completion_stars:
  "(currentLevel lm = Some lvl \<longrightarrow> stars lvl = Some st \<longrightarrow> time st = Some [t0, t1, t2]
      \<longrightarrow> t0 \<le> t1 \<longrightarrow> t1 \<le> t2 \<longrightarrow>
      (elapsedTime lm \<le> t0 \<longrightarrow> calculateStars lm = 3)
      \<and> (t0 < elapsedTime lm \<and> elapsedTime lm \<le> t1 \<longrightarrow> calculateStars lm = 2)
      \<and> (t1 < elapsedTime lm \<and> elapsedTime lm \<le> t2 \<longrightarrow> calculateStars lm = 1)
      \<and> (t2 < elapsedTime lm \<longrightarrow> calculateStars lm = 1))
   \<and> calculateStars lm \<in> {1, 2, 3}
   \<and> (fst (levelUpdate now om lm) = Some (Completed t s) \<longrightarrow> s \<in> {1, 2, 3})"
proof -
  have "fst (levelUpdate now om lm) = Some (Completed t s) \<longrightarrow> s \<in> {1, 2, 3}"
    using calculateStars_range
    by (auto simp add: levelUpdate_def Let_def split: option.splits if_splits prod.splits)
  moreover have "calculateStars lm \<in> {1, 2, 3}" by (rule calculateStars_range)
  moreover have "currentLevel lm = Some lvl \<longrightarrow> stars lvl = Some st \<longrightarrow> time st = Some [t0, t1, t2]
      \<longrightarrow> t0 \<le> t1 \<longrightarrow> t1 \<le> t2 \<longrightarrow>
      (elapsedTime lm \<le> t0 \<longrightarrow> calculateStars lm = 3)
      \<and> (t0 < elapsedTime lm \<and> elapsedTime lm \<le> t1 \<longrightarrow> calculateStars lm = 2)
      \<and> (t1 < elapsedTime lm \<and> elapsedTime lm \<le> t2 \<longrightarrow> calculateStars lm = 1)
      \<and> (t2 < elapsedTime lm \<longrightarrow> calculateStars lm = 1)"
    by (simp add: calculateStars_def le_js_def at_index_def)
  ultimately show ?thesis by blast
qed

text \<open>The theorem at level 1, with thresholds 60, 90 and 120 seconds.\<close>

theorem completion_stars_witness:
  "calculateStars (level1Manager\<lparr>elapsedTime := 45\<rparr>) = 3
   \<and> calculateStars (level1Manager\<lparr>elapsedTime := 60\<rparr>) = 3
   \<and> calculateStars (level1Manager\<lparr>elapsedTime := 75\<rparr>) = 2
   \<and> calculateStars (level1Manager\<lparr>elapsedTime := 100\<rparr>) = 1
   \<and> calculateStars (level1Manager\<lparr>elapsedTime := 500\<rparr>) = 1
   \<and> fst (levelUpdate 75000 cubeOnTarget level1Manager) = Some (Completed 75 2)"
proof -
  have a: "(60::real) \<le> 90" "(90::real) \<le> 120" by simp_all
  note c = completion_stars [THEN conjunct1, rule_format, OF level1_at(1,2,3) a]
  have "calculateStars (level1Manager\<lparr>elapsedTime := 45\<rparr>) = 3"
    using c [of 45] by (simp add: level1_at(4))
  moreover have "calculateStars (level1Manager\<lparr>elapsedTime := 60\<rparr>) = 3"
    using c [of 60] by (simp add: level1_at(4))
  moreover have s75: "calculateStars (level1Manager\<lparr>elapsedTime := 75\<rparr>) = 2"
    using c [of 75] by (simp add: level1_at(4))
  moreover have "calculateStars (level1Manager\<lparr>elapsedTime := 100\<rparr>) = 1"
    using c [of 100] by (simp add: level1_at(4))
  moreover have "calculateStars (level1Manager\<lparr>elapsedTime := 500\<rparr>) = 1"
    using c [of 500] by (simp add: level1_at(4))
  moreover have "fst (levelUpdate 75000 cubeOnTarget level1Manager) = Some (Completed 75 2)"
    by (simp add: levelUpdate_def Let_def falsy_def js_less_def checkWinCondition_def
        updateTargetStates_def getAllObjects_def level1Manager_def createTarget_def
        startedLevel_def level1_def cubeOnTarget_def spawnObject_def ObjectManager_new_def
        resetState_def matchesTarget_def dist_self calculateStars_def le_js_def at_index_def)
  ultimately show ?thesis by blast
qed


text \<open>
  Claim C8 at a stored best time of 0.  \<open>saveProgress(1, 3, 0)\<close> on an empty store records
  the best time 0 for level 1; \<open>saveProgress(1, 3, 5)\<close> then replaces it by the slower time
  5, because \<open>!data.progress.levelBestTimes[levelId]\<close> holds for a stored 0 as it does for a
  missing entry.
\<close>

theorem best_time_zero_replaced_by_slower_time:
  "levelBestTimes (loadProgress storeAfterFirst) 1 = Some 0
   \<and> (0::real) < 5
   \<and> levelBestTimes (loadProgress storeAfterSecond) 1 = Some 5"
proof -
  have "\<not> setItemThrows storeAfterFirst"
    by (simp add: storeAfterFirst_def saveProgress_writable emptyStore_def)
  then have "loadProgress storeAfterSecond = fst (saveProgress 1 3 5 storeAfterFirst)"
    unfolding storeAfterSecond_def by (rule loadProgress_saveProgress)
  then have "levelBestTimes (loadProgress storeAfterSecond) 1 = Some 5"
    by (simp add: saveProgress_levelBestTimes storeAfterFirst_time)
  then show ?thesis by (simp add: storeAfterFirst_time)
qed


text \<open>
  Claim C9, as the code has it, for every configuration.  The scan of an object stops at
  the first target, in target order, that it matches (the \<open>break\<close> of
  \<open>updateTargetStates\<close>): that target is marked filled with the object recorded for it,
  every other target is left as it was, and an object that matches no target changes
  nothing.  So a single object fills the first target it matches and no other, whatever
  other targets it also lies in; with objects of different ids, no id is recorded for two
  targets after one evaluation; a target is marked filled exactly when an object is
  recorded for it; and one evaluation never marks more targets filled than there are
  objects.
\<close>

theorem object_fills_only_first_matching_target:
  "length (filter filled (targets (updateTargetStates om lm))) \<le> length (objects om)
   \<and> ((\<forall>p\<in>set pre. \<not> matchesTarget obj p) \<longrightarrow> matchesTarget obj t \<longrightarrow>
        fillFirst obj (pre @ t # post)
          = pre @ t\<lparr>filled := True, tobject := Some (uid (userData obj))\<rparr> # post)
   \<and> ((\<forall>p\<in>set ts. \<not> matchesTarget obj p) \<longrightarrow> fillFirst obj ts = ts)
   \<and> (objects om = [(i, obj)] \<longrightarrow> targets lm = pre @ t # post
        \<longrightarrow> (\<forall>p\<in>set pre. \<not> matchesTarget obj p) \<longrightarrow> matchesTarget obj t
        \<longrightarrow> map filled (targets (updateTargetStates om lm))
              = map (\<lambda>t. False) pre @ True # map (\<lambda>t. False) post
          \<and> map tobject (targets (updateTargetStates om lm))
              = map (\<lambda>t. None) pre @ Some (uid (userData obj)) # map (\<lambda>t. None) post)
   \<and> (distinct (map (\<lambda>m. uid (userData m)) (getAllObjects om)) \<longrightarrow>
        distinct (List.map_filter tobject (targets (updateTargetStates om lm)))
        \<and> set (List.map_filter tobject (targets (updateTargetStates om lm)))
            \<subseteq> (\<lambda>m. uid (userData m)) ` set (getAllObjects om))
   \<and> (\<forall>t\<in>set (targets (updateTargetStates om lm)). filled t \<longleftrightarrow> tobject t \<noteq> None)"
proof -
  have A: "length (filter filled (targets (updateTargetStates om lm))) \<le> length (objects om)"
    using foldl_fillFirst_count [of "map resetState (targets lm)" "getAllObjects om"]
    by (simp add: updateTargetStates_def filter_filled_reset getAllObjects_def)
  have B: "(\<forall>p\<in>set pre. \<not> matchesTarget obj p) \<longrightarrow> matchesTarget obj t \<longrightarrow>
        fillFirst obj (pre @ t # post)
          = pre @ t\<lparr>filled := True, tobject := Some (uid (userData obj))\<rparr> # post"
    using fillFirst_first_match by blast
  have C: "(\<forall>p\<in>set ts. \<not> matchesTarget obj p) \<longrightarrow> fillFirst obj ts = ts"
    using fillFirst_no_match by blast
  have D: "map filled (targets (updateTargetStates om lm))
              = map (\<lambda>t. False) pre @ True # map (\<lambda>t. False) post
          \<and> map tobject (targets (updateTargetStates om lm))
              = map (\<lambda>t. None) pre @ Some (uid (userData obj)) # map (\<lambda>t. None) post"
    if h: "objects om = [(i, obj)]" "targets lm = pre @ t # post"
      "\<forall>p\<in>set pre. \<not> matchesTarget obj p" "matchesTarget obj t"
  proof -
    have p: "\<forall>p\<in>set (map resetState pre). \<not> matchesTarget obj p"
      using h(3) by (simp add: matchesTarget_resetState)
    have m: "matchesTarget obj (resetState t)"
      using h(4) by (simp add: matchesTarget_resetState)
    have "targets (updateTargetStates om lm)
        = fillFirst obj (map resetState pre @ resetState t # map resetState post)"
      by (simp add: updateTargetStates_def getAllObjects_def h(1,2))
    also have "\<dots> = map resetState pre
        @ (resetState t)\<lparr>filled := True, tobject := Some (uid (userData obj))\<rparr>
        # map resetState post"
      using p m by (rule fillFirst_first_match)
    finally show ?thesis
      by (simp add: resetState_def)
  qed
  have E: "distinct (List.map_filter tobject (targets (updateTargetStates om lm)))
        \<and> set (List.map_filter tobject (targets (updateTargetStates om lm)))
            \<subseteq> (\<lambda>m. uid (userData m)) ` set (getAllObjects om)"
    if h: "distinct (map (\<lambda>m. uid (userData m)) (getAllObjects om))"
    using foldl_fillFirst_fillers [OF h, of "map resetState (targets lm)"]
    by (simp add: updateTargetStates_def fillers_reset)
  have F: "\<forall>t\<in>set (targets (updateTargetStates om lm)). filled t \<longleftrightarrow> tobject t \<noteq> None"
    using foldl_fillFirst_filled_iff [of "map resetState (targets lm)" "getAllObjects om"]
    by (simp add: updateTargetStates_def resetState_def)
  from A B C D E F show ?thesis by blast
qed


text \<open>
  The theorem at level 6.  A cube on the top target is too far from the lowest target and
  lies within the radius of the other two: it fills the middle target only.  With a cube
  on the lowest target as well, the ids recorded for the targets are different.
\<close>

theorem object_fills_only_first_matching_target_witness:
  "objects cubeOnTop = [(1, cubeOnTopMesh)]
   \<and> \<not> matchesTarget cubeOnTopMesh (targets level6Manager ! 0)
   \<and> matchesTarget cubeOnTopMesh (targets level6Manager ! 1)
   \<and> matchesTarget cubeOnTopMesh (targets level6Manager ! 2)
   \<and> map filled (targets (updateTargetStates cubeOnTop level6Manager)) = [False, True, False]
   \<and> map tobject (targets (updateTargetStates cubeOnTop level6Manager)) = [None, Some 1, None]
   \<and> distinct (map (\<lambda>m. uid (userData m)) (getAllObjects stackOfTwo))
   \<and> distinct (List.map_filter tobject (targets (updateTargetStates stackOfTwo level6Manager)))
   \<and> length (filter filled (targets (updateTargetStates stackOfTwo level6Manager))) \<le> 2"
proof -
  have pre: "\<forall>p\<in>set [targets level6Manager ! 0]. \<not> matchesTarget cubeOnTopMesh p"
    using cubeOnTop_matches(1) by simp
  note single = object_fills_only_first_matching_target [where om = cubeOnTop and lm = level6Manager and i = 1
      and obj = cubeOnTopMesh and pre = "[targets level6Manager ! 0]"
      and t = "targets level6Manager ! 1" and post = "[targets level6Manager ! 2]",
      THEN conjunct2, THEN conjunct2, THEN conjunct2, THEN conjunct1]
  from single cubeOnTop_objects(1) level6_split pre cubeOnTop_matches(2)
  have "map filled (targets (updateTargetStates cubeOnTop level6Manager))
          = map (\<lambda>t. False) [targets level6Manager ! 0]
            @ True # map (\<lambda>t. False) [targets level6Manager ! 2]
      \<and> map tobject (targets (updateTargetStates cubeOnTop level6Manager))
          = map (\<lambda>t. None) [targets level6Manager ! 0]
            @ Some (uid (userData cubeOnTopMesh)) # map (\<lambda>t. None) [targets level6Manager ! 2]"
    by blast
  then have f: "map filled (targets (updateTargetStates cubeOnTop level6Manager))
      = [False, True, False]"
    and o: "map tobject (targets (updateTargetStates cubeOnTop level6Manager))
      = [None, Some 1, None]"
    by (simp_all add: cubeOnTop_objects(4))
  have du: "distinct (map (\<lambda>m. uid (userData m)) (getAllObjects stackOfTwo))"
    by (simp add: stackOfTwo_uids)
  note several = object_fills_only_first_matching_target [where om = stackOfTwo and lm = level6Manager]
  from several [THEN conjunct2, THEN conjunct2, THEN conjunct2, THEN conjunct2, THEN conjunct1] du
  have df: "distinct (List.map_filter tobject (targets (updateTargetStates stackOfTwo level6Manager)))"
    by blast
  have "length (map (\<lambda>m. uid (userData m)) (getAllObjects stackOfTwo)) = 2"
    by (simp only: stackOfTwo_uids) simp
  then have "length (objects stackOfTwo) = 2"
    by (simp add: getAllObjects_def)
  with several [THEN conjunct1]
  have le: "length (filter filled (targets (updateTargetStates stackOfTwo level6Manager))) \<le> 2"
    by simp
  show ?thesis
    by (intro conjI cubeOnTop_objects(1) cubeOnTop_matches f o du df le)
qed


text \<open>
  Claim C9 as the specification words it does not hold for the overlapping targets of
  level 6: the cube lies within the radius of the first two targets, both accept cubes,
  and one evaluation fills the first target only.
\<close>

theorem cube_in_two_level6_targets_fills_one:
  "objects cubeOnStack = [(1, cubeOnStackMesh)]
   \<and> length (targets level6Manager) = 3
   \<and> matchesTarget cubeOnStackMesh (targets level6Manager ! 0)
   \<and> matchesTarget cubeOnStackMesh (targets level6Manager ! 1)
   \<and> map filled (targets (updateTargetStates cubeOnStack level6Manager)) = [True, False, False]"
proof -
  have m: "matchesTarget cubeOnStackMesh (resetState (targets level6Manager ! 0))"
    using cubeOnStack_matches(1) by (simp only: matchesTarget_resetState)
  have "map filled (targets (updateTargetStates cubeOnStack level6Manager)) = [True, False, False]"
    using m
    by (simp add: updateTargetStates_def getAllObjects_def cubeOnStack_objects(1) level6_targets)
      (simp add: resetState_def)
  with cubeOnStack_matches show ?thesis
    by (simp add: cubeOnStack_objects(1) level6_targets)
qed


end
